theory Spec2Isabelle
  imports Complex_Main "HOL-Library.Char_ord" "HOL-Library.List_Lexorder"
    "HOL-Library.Product_Lexorder"
begin

section \<open>Strings\<close>

text \<open>
  Python strings are modelled as \<^typ>\<open>string\<close>. The generator's own tables are ASCII, and
  the character classes below are the ASCII ones: \<open>\d\<close>, \<open>str.isdigit\<close>,
  \<open>str.lower\<close>, \<open>str.title\<close> and \<open>str.capitalize\<close> are modelled on ASCII input, where
  they change case letter by letter and a digit is one of \<open>0\<close> .. \<open>9\<close>.
\<close>

definition lower_chars :: string where
  "lower_chars = ''abcdefghijklmnopqrstuvwxyz''"

definition upper_chars :: string where
  "upper_chars = ''ABCDEFGHIJKLMNOPQRSTUVWXYZ''"

definition digit_chars :: string where
  "digit_chars = ''0123456789''"

definition isdigit :: "char \<Rightarrow> bool" where
  "isdigit c = (c \<in> set digit_chars)"

definition islower :: "char \<Rightarrow> bool" where
  "islower c = (c \<in> set lower_chars)"

definition isupper :: "char \<Rightarrow> bool" where
  "isupper c = (c \<in> set upper_chars)"

definition isalpha :: "char \<Rightarrow> bool" where
  "isalpha c = (islower c \<or> isupper c)"

definition char_upper :: "char \<Rightarrow> char" where
  "char_upper c = (case map_of (zip lower_chars upper_chars) c of Some u \<Rightarrow> u | None \<Rightarrow> c)"

definition char_lower :: "char \<Rightarrow> char" where
  "char_lower c = (case map_of (zip upper_chars lower_chars) c of Some l \<Rightarrow> l | None \<Rightarrow> c)"

text \<open>\<open>s.lower()\<close> and \<open>s.upper()\<close>.\<close>

definition lower :: "string \<Rightarrow> string" where
  "lower s = map char_lower s"

definition upper :: "string \<Rightarrow> string" where
  "upper s = map char_upper s"

text \<open>
  \<open>s.title()\<close>: a cased character that follows an uncased one (or starts the string) is
  upper-cased, a cased character that follows a cased one is lower-cased. The flag is
  Python's \<open>previous_is_cased\<close>.
\<close>

fun title_from :: "bool \<Rightarrow> string \<Rightarrow> string" where
  "title_from prev [] = []"
| "title_from prev (c # cs) =
     (if isalpha c then (if prev then char_lower c else char_upper c) # title_from True cs
      else c # title_from False cs)"

definition title :: "string \<Rightarrow> string" where
  "title s = title_from False s"

text \<open>\<open>s.capitalize()\<close>: first character upper-cased, the rest lower-cased.\<close>

definition capitalize :: "string \<Rightarrow> string" where
  "capitalize s = (case s of [] \<Rightarrow> [] | c # cs \<Rightarrow> char_upper c # lower cs)"

section \<open>Date parsing\<close>

text \<open>
  \<open>parse_human_date\<close> (main_Cli.py, and the identical copy in Gui/v2.py). The result is
  the Python dict \<open>date_info\<close>, a map from key to value. \<open>clean_date\<close> is
  \<open>re.sub(r'[^\d]', '', date_str)\<close>; the slices \<open>clean_date[a:b]\<close> are
  \<open>take (b - a) (drop a clean_date)\<close>, which like Python's slices never fail.
\<close>

type_synonym date_info = "string \<rightharpoonup> string"

definition clean_date :: "string \<Rightarrow> string" where
  "clean_date date_str = filter isdigit date_str"

definition slice :: "nat \<Rightarrow> nat \<Rightarrow> string \<Rightarrow> string" where
  "slice a b s = take (b - a) (drop a s)"

definition parse_human_date :: "string \<Rightarrow> date_info" where
  "parse_human_date date_str =
     (if date_str = [] then Map.empty
      else
        let cd = clean_date date_str;
            info =
              (if length cd = 8 then
                 [''day'' \<mapsto> slice 0 2 cd, ''month'' \<mapsto> slice 2 4 cd,
                  ''year'' \<mapsto> slice 4 8 cd, ''year_short'' \<mapsto> slice 6 8 cd]
               else if length cd = 6 then
                 [''day'' \<mapsto> slice 0 2 cd, ''month'' \<mapsto> slice 2 4 cd,
                  ''year'' \<mapsto> ''20'' @ slice 4 6 cd, ''year_short'' \<mapsto> slice 4 6 cd]
               else if length cd = 4 then
                 [''day'' \<mapsto> slice 0 2 cd, ''month'' \<mapsto> slice 2 4 cd]
               else Map.empty)
        in info(''full'' \<mapsto> cd))"

text \<open>\<open>d.get(key, '')\<close> on a dict of strings.\<close>

definition get_str :: "(string \<rightharpoonup> string) \<Rightarrow> string \<Rightarrow> string" where
  "get_str d k = (case d k of None \<Rightarrow> [] | Some v \<Rightarrow> v)"

section \<open>Sets of candidates, errors, the random generator\<close>

text \<open>
  A Python \<open>set\<close> of strings is a list without duplicates: \<open>add\<close> is \<open>set.add\<close>,
  \<open>update\<close> is \<open>set.update\<close>. Python does not promise an iteration order for a set, so
  \<open>list(s)\<close> is \<open>iter s\<close> for a parameter \<open>iter\<close> of the functions that iterate.
\<close>

type_synonym pyset = "string list"

definition add :: "string \<Rightarrow> pyset \<Rightarrow> pyset" where
  "add x s = (if x \<in> set s then s else s @ [x])"

definition update :: "pyset \<Rightarrow> string list \<Rightarrow> pyset" where
  "update s xs = fold add xs s"

text \<open>The exceptions of the modelled code.\<close>

datatype py_error = KeyError string | IndexError | ValueError

text \<open>
  The module-level generator of \<open>random\<close> is the sequence of values that its successive
  calls deliver, with the number of calls made so far. \<open>random.random()\<close> delivers a float
  in \<open>[0, 1)\<close>; for \<open>random.choice(seq)\<close> the value \<open>u\<close> delivered stands for the index
  \<open>\<lfloor>u * len(seq)\<rfloor>\<close> that is chosen (kept inside the sequence for any \<open>u\<close>), and an
  empty sequence raises IndexError. The code never seeds the generator and takes no seed.
\<close>

type_synonym rng = "nat \<Rightarrow> rat"

definition random_random :: "rng \<Rightarrow> nat \<Rightarrow> rat \<times> nat" where
  "random_random g pos = (g pos, Suc pos)"

definition random_choice :: "rng \<Rightarrow> nat \<Rightarrow> 'a list \<Rightarrow> py_error + ('a \<times> nat)" where
  "random_choice g pos seq =
     (if seq = [] then Inl IndexError
      else Inr (seq ! (min (nat \<lfloor>g pos * of_nat (length seq)\<rfloor>) (length seq - 1)), Suc pos))"

section \<open>The tables of the generator\<close>

definition human_patterns :: "string list" where
  "human_patterns =
    [''{first}{last}'', ''{last}{first}'', ''{first}{last}{year}'', ''{last}{first}{year}'',
     ''{first}{last_initial}{year}'', ''{first_initial}{last}{year}'',
     ''{first}{last}{day}{month}'', ''{first}{last}{month}{year}'', ''{first}{last}{year_short}'',
     ''{first}{year}'', ''{last}{year}'',
     ''{nick}{year}'', ''{nick}{birth_day}'', ''{nick}{birth_month}'',
     ''{nick}{birth_day}{birth_month}'',
     ''{last}{first}{year_short}'', ''{year}{first}{last}'',
     ''{first}.{last}{year_short}'', ''{first}_{last}{year}'', ''{first}{special}{last}{year}'',
     ''{first}{last}{special}{year}'',
     ''{first}{last}123'', ''{first}{last}1234'', ''{first}{last}12345'', ''{first}{last}!'',
     ''{first}{last}!!'', ''{first}{last}?'',
     ''{first}{spouse_initial}{year}'', ''{child_name}{year}'', ''{pet_name}{year}'',
     ''{first}{birth_day}'', ''{last}{birth_month}'', ''{first_initial}{last_initial}{year}'',
     ''{first}{year}{last}'', ''{year}{first}{year_short}'']"

definition common_specials :: "string list" where
  "common_specials = [''!'', ''@'', ''#'', ''$'', ''%'', ''&'', ''*'', ''_'', ''.'', ''-'']"

definition common_numbers :: "string list" where
  "common_numbers =
    [''123'', ''1234'', ''12345'', ''123456'', ''321'', ''4321'', ''54321'',
     ''111'', ''222'', ''333'', ''444'', ''555'', ''666'', ''777'', ''888'', ''999'',
     ''007'', ''100'', ''200'', ''300'', ''69'', ''420'', ''777'', ''888'',
     ''01'', ''02'', ''03'', ''04'', ''05'', ''10'', ''20'', ''30'', ''40'', ''50'',
     ''99'', ''88'', ''77'', ''66'', ''1111'', ''2222'', ''3333'', ''4444'',
     ''0000'', ''11111'', ''22222'']"

text \<open>\<open>leet_map\<close>, in the dict's insertion order, which is the order \<open>items()\<close> yields.\<close>

definition leet_map :: "(char \<times> string list) list" where
  "leet_map =
    [(CHR ''a'', [''4'', ''@'']), (CHR ''e'', [''3'']), (CHR ''i'', [''1'', ''!'']),
     (CHR ''o'', [''0'']), (CHR ''s'', [''5'', ''$'']), (CHR ''t'', [''7''])]"

section \<open>Template substitution\<close>

text \<open>
  \<open>pattern.format(**vars_dict)\<close> for the replacement fields the table uses, \<open>{name}\<close>:
  the second argument is the field name read so far (\<open>None\<close> outside a field). \<open>{{\<close> and
  \<open>}}\<close> are the escaped braces. As in Python, fields are resolved from left to right and the
  first failure is the one raised: a name missing from the keyword arguments is KeyError, an
  empty or numeric name refers to a positional argument, of which there is none, and is
  IndexError, a single \<open>}\<close>, a \<open>{\<close> inside a field and an unclosed field are ValueError.
  Conversions and format specifications (\<open>!r\<close>, \<open>:>8\<close>) do not occur in the table and are
  not modelled: such a field is looked up under its whole text.
\<close>

definition lookup_field :: "(string \<rightharpoonup> string) \<Rightarrow> string \<Rightarrow> py_error + string" where
  "lookup_field vars name =
     (if list_all isdigit name then Inl IndexError
      else case vars name of None \<Rightarrow> Inl (KeyError name) | Some v \<Rightarrow> Inr v)"

definition prepend :: "string \<Rightarrow> py_error + string \<Rightarrow> py_error + string" where
  "prepend v r = (case r of Inl e \<Rightarrow> Inl e | Inr s \<Rightarrow> Inr (v @ s))"

fun fmt :: "(string \<rightharpoonup> string) \<Rightarrow> string option \<Rightarrow> string \<Rightarrow> py_error + string" where
  "fmt vars None [] = Inr []"
| "fmt vars (Some name) [] = Inl ValueError"
| "fmt vars None (c # cs) =
     (if c = CHR ''{'' then
        (case cs of
           [] \<Rightarrow> Inl ValueError
         | d # ds \<Rightarrow> if d = CHR ''{'' then prepend ''{'' (fmt vars None ds)
                     else fmt vars (Some []) cs)
      else if c = CHR ''}'' then
        (case cs of
           [] \<Rightarrow> Inl ValueError
         | d # ds \<Rightarrow> if d = CHR ''}'' then prepend ''}'' (fmt vars None ds)
                     else Inl ValueError)
      else prepend [c] (fmt vars None cs))"
| "fmt vars (Some name) (c # cs) =
     (if c = CHR ''}'' then
        (case lookup_field vars name of
           Inl e \<Rightarrow> Inl e
         | Inr v \<Rightarrow> prepend v (fmt vars None cs))
      else if c = CHR ''{'' then Inl ValueError
      else fmt vars (Some (name @ [c])) cs)"

definition format :: "string \<Rightarrow> (string \<rightharpoonup> string) \<Rightarrow> py_error + string" where
  "format pattern vars = fmt vars None pattern"

text \<open>The names of the replacement fields of a pattern, by the same scan.\<close>

fun fields_from :: "string option \<Rightarrow> string \<Rightarrow> string list" where
  "fields_from None [] = []"
| "fields_from (Some name) [] = []"
| "fields_from None (c # cs) =
     (if c = CHR ''{'' then
        (case cs of
           [] \<Rightarrow> []
         | d # ds \<Rightarrow> if d = CHR ''{'' then fields_from None ds else fields_from (Some []) cs)
      else if c = CHR ''}'' then
        (case cs of
           [] \<Rightarrow> []
         | d # ds \<Rightarrow> if d = CHR ''}'' then fields_from None ds else [])
      else fields_from None cs)"
| "fields_from (Some name) (c # cs) =
     (if c = CHR ''}'' then name # fields_from None cs
      else if c = CHR ''{'' then []
      else fields_from (Some (name @ [c])) cs)"

definition field_names :: "string \<Rightarrow> string list" where
  "field_names pattern = fields_from None pattern"

section \<open>The profile and its variable bindings\<close>

text \<open>
  The dict \<open>data\<close> that \<open>main\<close> hands to the generator: a field is \<open>None\<close> when the key is
  absent. \<open>data.get('first_name', '')\<close> is \<open>dget\<close>; an option flag read with
  \<open>data.get(key)\<close> or \<open>data.get(key, False)\<close> is \<open>flag\<close>, one read with
  \<open>data.get(key, True)\<close> is \<open>flag_or_true\<close>.
\<close>

record data =
  first_name :: "string option"
  last_name :: "string option"
  nickname :: "string option"
  birth_date :: "string option"
  spouse_name :: "string option"
  child_name :: "string option"
  pet_name :: "string option"
  use_specials :: "bool option"
  use_leet :: "bool option"
  add_numbers :: "bool option"
  specials :: "string list option"

definition dget :: "string option \<Rightarrow> string" where
  "dget v = (case v of None \<Rightarrow> [] | Some s \<Rightarrow> s)"

definition flag :: "bool option \<Rightarrow> bool" where
  "flag v = (v = Some True)"

definition flag_or_true :: "bool option \<Rightarrow> bool" where
  "flag_or_true v = (v \<noteq> Some False)"

text \<open>
  The value bound to \<open>special\<close>: \<open>random.choice(self.common_specials)\<close> when
  \<open>use_specials\<close> is set, the empty string otherwise. It is computed once, before the loop
  over the patterns.
\<close>

definition bind_special :: "rng \<Rightarrow> nat \<Rightarrow> data \<Rightarrow> py_error + (string \<times> nat)" where
  "bind_special g pos d =
     (if flag (use_specials d) then random_choice g pos common_specials else Inr ([], pos))"

text \<open>\<open>vars_dict\<close>; \<open>s[0] if s else ''\<close> is \<open>take 1 s\<close>.\<close>

definition vars_dict :: "data \<Rightarrow> string \<Rightarrow> (string \<rightharpoonup> string)" where
  "vars_dict d special =
     (let firstn = lower (dget (first_name d));
          lastn = lower (dget (last_name d));
          nick = lower (dget (nickname d));
          date_info = parse_human_date (dget (birth_date d));
          v0 = [''first'' \<mapsto> firstn,
                ''first_initial'' \<mapsto> take 1 firstn,
                ''last'' \<mapsto> lastn,
                ''last_initial'' \<mapsto> take 1 lastn,
                ''nick'' \<mapsto> nick,
                ''year'' \<mapsto> get_str date_info ''year'',
                ''year_short'' \<mapsto> get_str date_info ''year_short'',
                ''birth_day'' \<mapsto> get_str date_info ''day'',
                ''birth_month'' \<mapsto> get_str date_info ''month'',
                ''day'' \<mapsto> get_str date_info ''day'',
                ''month'' \<mapsto> get_str date_info ''month'',
                ''special'' \<mapsto> special];
          v1 = (case spouse_name d of None \<Rightarrow> v0
                | Some sp \<Rightarrow> v0(''spouse_initial'' \<mapsto> take 1 (lower sp)));
          v2 = (case child_name d of None \<Rightarrow> v1
                | Some ch \<Rightarrow> v1(''child_name'' \<mapsto> lower ch));
          v3 = (case pet_name d of None \<Rightarrow> v2
                | Some pt \<Rightarrow> v2(''pet_name'' \<mapsto> lower pt))
      in v3)"

section \<open>Template expansion\<close>

text \<open>\<open>re.split\<close> on a class of single separator characters.\<close>

fun re_split :: "string \<Rightarrow> string \<Rightarrow> string list" where
  "re_split seps [] = [[]]"
| "re_split seps (c # cs) =
     (if c \<in> set seps then [] # re_split seps cs
      else (case re_split seps cs of [] \<Rightarrow> [[c]] | p # ps \<Rightarrow> (c # p) # ps))"

text \<open>The body of the loop over \<open>self.common_numbers[:10]\<close>, for one \<open>num\<close>.\<close>

definition add_number :: "string \<Rightarrow> string \<Rightarrow> pyset \<Rightarrow> pyset" where
  "add_number password num s =
     (let s1 = add (password @ num) s in
      if CHR ''_'' \<in> set password \<or> CHR ''.'' \<in> set password then
        (let parts = re_split ''._'' password in
         if length parts > 1 then add (parts ! 0 @ num @ parts ! 1) s1 else s1)
      else s1)"

text \<open>What the loop does with a pattern once \<open>format\<close> has returned \<open>password\<close>.\<close>

definition accept :: "data \<Rightarrow> string \<Rightarrow> pyset \<Rightarrow> pyset" where
  "accept d password s =
     (if 6 \<le> length password \<and> length password \<le> 20 then
        (let s1 = add (capitalize password) (add (title password) (add password s)) in
         if flag_or_true (add_numbers d) then fold (add_number password) (take 10 common_numbers) s1
         else s1)
      else s)"

text \<open>
  The loop over the patterns. \<open>except KeyError: continue\<close> goes on with the next pattern;
  any other exception of \<open>format\<close> is not caught and ends the call.
\<close>

fun apply_patterns :: "data \<Rightarrow> (string \<rightharpoonup> string) \<Rightarrow> string list \<Rightarrow> pyset \<Rightarrow> py_error + pyset" where
  "apply_patterns d vars [] s = Inr s"
| "apply_patterns d vars (pattern # rest) s =
     (case format pattern vars of
        Inl (KeyError k) \<Rightarrow> apply_patterns d vars rest s
      | Inl IndexError \<Rightarrow> Inl IndexError
      | Inl ValueError \<Rightarrow> Inl ValueError
      | Inr password \<Rightarrow> apply_patterns d vars rest (accept d password s))"

section \<open>Fixed examples and common passwords\<close>

definition generate_specific_examples :: "pyset \<Rightarrow> string \<Rightarrow> string \<Rightarrow> date_info \<Rightarrow> pyset" where
  "generate_specific_examples passwords firstn lastn date_info =
     (if firstn = [] \<or> lastn = [] then passwords
      else
        let day = get_str date_info ''day'';
            month = get_str date_info ''month'';
            year = get_str date_info ''year'';
            year_short = get_str date_info ''year_short''
        in update passwords
          [firstn @ lastn @ day @ month @ year_short,
           firstn @ lastn @ year,
           firstn @ lastn @ day,
           firstn @ lastn @ month,
           firstn @ lastn @ year_short,
           lastn @ firstn @ day @ month @ year,
           lastn @ firstn @ year,
           lastn @ firstn @ day @ month,
           firstn @ lastn @ lastn @ year,
           firstn @ firstn @ lastn @ year,
           firstn @ ''.'' @ lastn @ year_short,
           firstn @ ''_'' @ lastn @ year,
           firstn @ lastn @ ''@'' @ year_short,
           firstn @ year @ lastn,
           year_short @ firstn @ lastn,
           firstn @ take 1 lastn @ year,
           firstn @ lastn,
           lastn @ firstn,
           take 1 firstn @ lastn,
           firstn @ take 1 lastn,
           firstn @ lastn @ ''123'',
           firstn @ lastn @ ''!23'',
           firstn @ lastn @ ''@123''])"

definition generate_common_passwords :: "string \<Rightarrow> string \<Rightarrow> date_info \<Rightarrow> pyset" where
  "generate_common_passwords firstn lastn date_info =
     (if firstn = [] \<or> lastn = [] then []
      else
        let year = get_str date_info ''year'';
            year_short = get_str date_info ''year_short'';
            p1 = update []
              [firstn @ ''123'', firstn @ ''1234'', lastn @ ''123'', firstn @ take 1 lastn @ ''123'',
               firstn @ ''!23'', firstn @ ''@123'', firstn @ ''#123''];
            p2 = (if year \<noteq> [] then
                    update p1 [firstn @ year, lastn @ year, firstn @ take 1 lastn @ year_short]
                  else p1)
        in update p2 [lower firstn, title firstn, lower lastn, title lastn])"

section \<open>Mutation stages\<close>

text \<open>
  \<open>re.search(r'\d+$', pwd)\<close>: the start of the digits that end the string, if there are
  any. \<open>$\<close> also matches before a newline that ends the string.
\<close>

definition trailing_digits_start :: "string \<Rightarrow> nat option" where
  "trailing_digits_start pwd =
     (let core = (if pwd \<noteq> [] \<and> last pwd = CHR 0x0A then butlast pwd else pwd);
          k = length (takeWhile isdigit (rev core))
      in if k = 0 then None else Some (length core - k))"

definition date_combinations :: "date_info \<Rightarrow> string list" where
  "date_combinations date_info =
     (let day = get_str date_info ''day'';
          month = get_str date_info ''month'';
          year = get_str date_info ''year'';
          year_short = get_str date_info ''year_short''
      in (if day \<noteq> [] \<and> month \<noteq> [] then [day @ month, month @ day] else [])
       @ (if day \<noteq> [] \<and> month \<noteq> [] \<and> year_short \<noteq> [] then
            [day @ month @ year_short, month @ day @ year_short] else [])
       @ (if year \<noteq> [] then [year] else [])
       @ (if year_short \<noteq> [] then [year_short] else []))"

text \<open>The bodies of the two loops of \<open>add_number_variations\<close>.\<close>

definition add_date_combo :: "string \<Rightarrow> string \<Rightarrow> pyset \<Rightarrow> pyset" where
  "add_date_combo pwd date_combo new =
     (let n1 = add (date_combo @ pwd) (add (pwd @ date_combo) new) in
      if list_ex isdigit pwd then
        (case trailing_digits_start pwd of
           None \<Rightarrow> n1
         | Some start \<Rightarrow> add (take start pwd @ date_combo) n1)
      else n1)"

definition add_common_number :: "string \<Rightarrow> string \<Rightarrow> pyset \<Rightarrow> pyset" where
  "add_common_number pwd num new =
     (let n1 = add (pwd @ num) new in
      if length pwd > 5 \<and>
         (CHR ''_'' \<in> set pwd \<or> CHR ''.'' \<in> set pwd \<or> CHR ''-'' \<in> set pwd) then
        (let parts = re_split ''._-'' pwd in
         if length parts = 2 then add (parts ! 0 @ num @ parts ! 1) n1 else n1)
      else n1)"

definition add_number_variations ::
  "(pyset \<Rightarrow> string list) \<Rightarrow> pyset \<Rightarrow> date_info \<Rightarrow> pyset" where
  "add_number_variations iter passwords date_info =
     (let combos = take 3 (date_combinations date_info);
          new1 = fold (\<lambda>pwd. fold (add_date_combo pwd) combos) (take 100 (iter passwords)) [];
          new2 = fold (\<lambda>pwd. fold (add_common_number pwd) (take 5 common_numbers))
                   (take 50 (iter passwords)) new1
      in new2)"

text \<open>\<open>pwd.replace(old, new)\<close> for a single character \<open>old\<close>.\<close>

definition replace :: "char \<Rightarrow> string \<Rightarrow> string \<Rightarrow> string" where
  "replace old new s = concat (map (\<lambda>c. if c = old then new else [c]) s)"

definition add_special :: "string \<Rightarrow> string \<Rightarrow> pyset \<Rightarrow> pyset" where
  "add_special pwd special new =
     (let n1 = add (special @ pwd @ special) (add (special @ pwd) (add (pwd @ special) new));
          n2 = (if CHR '' '' \<in> set pwd then add (replace (CHR '' '') special pwd) n1 else n1)
      in if length pwd > 8 then
           (let mid = length pwd div 2 in add (take mid pwd @ special @ drop mid pwd) n2)
         else n2)"

definition add_special_variations ::
  "(pyset \<Rightarrow> string list) \<Rightarrow> pyset \<Rightarrow> string list \<Rightarrow> pyset" where
  "add_special_variations iter passwords specs =
     fold (\<lambda>pwd new. fold (add_special pwd) (take 3 specs) (add pwd new))
       (take 200 (iter passwords)) []"

text \<open>
  The thresholds of \<open>add_leet_variations\<close> are the doubles that the literals \<open>0.3\<close> and
  \<open>0.5\<close> denote.
\<close>

definition float_0_3 :: rat where
  "float_0_3 = 5404319552844595 / 18014398509481984"

definition float_0_5 :: rat where
  "float_0_5 = 1 / 2"

text \<open>The loop over \<open>self.leet_map.items()\<close> for one password.\<close>

fun leet_subst :: "rng \<Rightarrow> (char \<times> string list) list \<Rightarrow> string \<Rightarrow> nat \<Rightarrow> py_error + (string \<times> nat)" where
  "leet_subst g [] leet_pwd pos = Inr (leet_pwd, pos)"
| "leet_subst g ((ch, subs) # m) leet_pwd pos =
     (if ch \<in> set (lower leet_pwd) then
        (case random_random g pos of (r, pos1) \<Rightarrow>
           if r < float_0_5 then
             (case random_choice g pos1 subs of
                Inl e \<Rightarrow> Inl e
              | Inr (c1, pos2) \<Rightarrow>
                  (case random_choice g pos2 subs of
                     Inl e \<Rightarrow> Inl e
                   | Inr (c2, pos3) \<Rightarrow>
                       leet_subst g m (replace (char_upper ch) c2 (replace ch c1 leet_pwd)) pos3))
           else leet_subst g m leet_pwd pos1)
      else leet_subst g m leet_pwd pos)"

fun leet_loop :: "rng \<Rightarrow> string list \<Rightarrow> pyset \<Rightarrow> nat \<Rightarrow> py_error + (pyset \<times> nat)" where
  "leet_loop g [] new pos = Inr (new, pos)"
| "leet_loop g (pwd # rest) new pos =
     (let new1 = add pwd new in
      case random_random g pos of (r, pos1) \<Rightarrow>
        if r < float_0_3 then
          (case leet_subst g leet_map pwd pos1 of
             Inl e \<Rightarrow> Inl e
           | Inr (leet_pwd, pos2) \<Rightarrow>
               leet_loop g rest (if leet_pwd \<noteq> pwd then add leet_pwd new1 else new1) pos2)
        else leet_loop g rest new1 pos1)"

definition add_leet_variations ::
  "(pyset \<Rightarrow> string list) \<Rightarrow> rng \<Rightarrow> nat \<Rightarrow> pyset \<Rightarrow> py_error + (pyset \<times> nat)" where
  "add_leet_variations iter g pos passwords = leet_loop g (take 100 (iter passwords)) [] pos"

text \<open>
  The three gated stages of \<open>generate_smart_combinations\<close>, each
  \<open>if flag: passwords.update(stage(passwords))\<close>. Updating with a set adds its members in
  the set's iteration order.
\<close>

definition numbers_stage :: "(pyset \<Rightarrow> string list) \<Rightarrow> data \<Rightarrow> date_info \<Rightarrow> pyset \<Rightarrow> pyset" where
  "numbers_stage iter d date_info passwords =
     (if flag_or_true (add_numbers d) then
        update passwords (iter (add_number_variations iter passwords date_info))
      else passwords)"

definition specials_stage :: "(pyset \<Rightarrow> string list) \<Rightarrow> data \<Rightarrow> pyset \<Rightarrow> pyset" where
  "specials_stage iter d passwords =
     (if flag (use_specials d) then
        update passwords
          (iter (add_special_variations iter passwords
                   (case specials d of None \<Rightarrow> common_specials | Some sp \<Rightarrow> sp)))
      else passwords)"

definition leet_stage ::
  "(pyset \<Rightarrow> string list) \<Rightarrow> rng \<Rightarrow> nat \<Rightarrow> data \<Rightarrow> pyset \<Rightarrow> py_error + (pyset \<times> nat)" where
  "leet_stage iter g pos d passwords =
     (if flag (use_leet d) then
        (case add_leet_variations iter g pos passwords of
           Inl e \<Rightarrow> Inl e
         | Inr (new, pos1) \<Rightarrow> Inr (update passwords (iter new), pos1))
      else Inr (passwords, pos))"

section \<open>The generator\<close>

text \<open>
  The template loop of \<open>generate_smart_combinations\<close> on its own: the first-generation
  candidates, from the empty set.
\<close>

definition first_generation :: "data \<Rightarrow> string \<Rightarrow> py_error + pyset" where
  "first_generation d special = apply_patterns d (vars_dict d special) human_patterns []"

definition generate_smart_combinations ::
  "(pyset \<Rightarrow> string list) \<Rightarrow> rng \<Rightarrow> data \<Rightarrow> py_error + pyset" where
  "generate_smart_combinations iter g d =
     (let firstn = lower (dget (first_name d));
          lastn = lower (dget (last_name d));
          date_info = parse_human_date (dget (birth_date d))
      in case bind_special g 0 d of
           Inl e \<Rightarrow> Inl e
         | Inr (special, pos1) \<Rightarrow>
             (case first_generation d special of
                Inl e \<Rightarrow> Inl e
              | Inr p1 \<Rightarrow>
                  (let p2 = generate_specific_examples p1 firstn lastn date_info;
                       p3 = numbers_stage iter d date_info p2;
                       p4 = specials_stage iter d p3
                   in case leet_stage iter g pos1 d p4 of
                        Inl e \<Rightarrow> Inl e
                      | Inr (p5, pos2) \<Rightarrow>
                          Inr (update p5
                                 (iter (generate_common_passwords firstn lastn date_info))))))"

section \<open>Filtering, limiting and ordering\<close>

text \<open>
  \<open>re.search\<close> for a run of at least \<open>n\<close> characters of a class (\<open>[...]{n,}\<close>); the
  third argument counts the run that ends at the current position.
\<close>

fun has_run :: "(char \<Rightarrow> bool) \<Rightarrow> nat \<Rightarrow> nat \<Rightarrow> string \<Rightarrow> bool" where
  "has_run P n k [] = False"
| "has_run P n k (c # cs) =
     (if P c then (n \<le> Suc k \<or> has_run P n (Suc k) cs) else has_run P n 0 cs)"

definition filter_specials :: string where
  "filter_specials = ''!@#$%^&*''"

text \<open>
  The four tests of \<open>analyze_and_filter\<close> on one password. \<open>min_len\<close> and \<open>max_len\<close>
  are Python integers. The pattern statistics are only printed and are left out.
\<close>

definition keeps :: "int \<Rightarrow> int \<Rightarrow> string \<Rightarrow> bool" where
  "keeps min_len max_len pwd =
     (min_len \<le> int (length pwd) \<and> int (length pwd) \<le> max_len
      \<and> \<not> has_run (\<lambda>c. c \<in> set filter_specials) 3 0 pwd
      \<and> \<not> has_run isdigit 6 0 pwd
      \<and> list_ex isalpha pwd)"

definition analyze_and_filter :: "(pyset \<Rightarrow> string list) \<Rightarrow> pyset \<Rightarrow> int \<Rightarrow> int \<Rightarrow> pyset" where
  "analyze_and_filter iter passwords min_len max_len =
     update [] (filter (keeps min_len max_len) (iter passwords))"

text \<open>
  \<open>main\<close>, from the call of the generator to the lines written to the output file:
  \<open>limit_output\<close> is the step under \<open># Limit if specified\<close>, \<open>sorted_passwords\<close> the
  sort by \<open>(len(x), x)\<close>. With an empty filtered set nothing is written. \<open>max\<close> is
  \<open>args.max\<close>, a Python integer.
\<close>

definition limit_output :: "(pyset \<Rightarrow> string list) \<Rightarrow> int \<Rightarrow> pyset \<Rightarrow> pyset" where
  "limit_output iter mx filtered =
     (if mx > 0 \<and> int (length filtered) > mx then update [] (take (nat mx) (iter filtered))
      else filtered)"

definition sorted_passwords :: "(pyset \<Rightarrow> string list) \<Rightarrow> pyset \<Rightarrow> string list" where
  "sorted_passwords iter filtered = sort_key (\<lambda>x. (length x, x)) (iter filtered)"

definition main_output ::
  "(pyset \<Rightarrow> string list) \<Rightarrow> rng \<Rightarrow> data \<Rightarrow> int \<Rightarrow> py_error + string list" where
  "main_output iter g d mx =
     (case generate_smart_combinations iter g d of
        Inl e \<Rightarrow> Inl e
      | Inr passwords \<Rightarrow>
          (let filtered = limit_output iter mx (analyze_and_filter iter passwords 6 20)
           in Inr (if filtered = [] then [] else sorted_passwords iter filtered)))"

section \<open>The stratified sampler of old_versions/Var3.py\<close>

text \<open>
  \<open>random.sample(population, k)\<close> raises ValueError when \<open>k\<close> is negative or larger than
  the population; otherwise it returns \<open>k\<close> members, here the ones \<open>pick\<close> chooses.
\<close>

definition random_sample ::
  "(string list \<Rightarrow> nat \<Rightarrow> string list) \<Rightarrow> string list \<Rightarrow> int \<Rightarrow> py_error + string list" where
  "random_sample pick population k =
     (if k < 0 \<or> int (length population) < k then Inl ValueError
      else Inr (pick population (nat k)))"

text \<open>
  \<open>save_to_file\<close>, up to the list of lines it writes. The three quotas are Python's
  \<open>[...][:100000]\<close>, \<open>[:200000]\<close> and \<open>[:300000]\<close>.
\<close>

definition save_to_file ::
  "(pyset \<Rightarrow> string list) \<Rightarrow> (string list \<Rightarrow> nat \<Rightarrow> string list) \<Rightarrow> pyset \<Rightarrow> int
     \<Rightarrow> py_error + string list" where
  "save_to_file iter pick passwords max_passwords =
     (let password_list = iter passwords in
      if int (length password_list) > max_passwords then
        (let s1 = update [] (take 100000 (filter (\<lambda>p. length p \<le> 8) password_list));
             s2 = update s1
                    (take 200000
                       (filter (\<lambda>p. list_ex (\<lambda>c. c \<in> set filter_specials) p) password_list));
             sampled = update s2
                    (take 300000
                       (filter (\<lambda>p. list_ex isdigit p \<and> list_ex isalpha p) password_list));
             remaining = filter (\<lambda>p. p \<notin> set sampled) password_list
         in if int (length remaining) > max_passwords - int (length sampled) then
              (case random_sample pick remaining (max_passwords - int (length sampled)) of
                 Inl e \<Rightarrow> Inl e
               | Inr chosen \<Rightarrow> Inr (sort (iter (update sampled chosen))))
            else Inr (sort (iter sampled)))
      else Inr (sort password_list))"

section \<open>Auxiliary notions for the statements\<close>

text \<open>
  A pattern is a simple template when \<open>format\<close> accepts it under bindings that define
  every name: its braces are balanced and no field is positional. All patterns of the
  table are simple.
\<close>

definition simple_template :: "string \<Rightarrow> bool" where
  "simple_template pattern =
     (case format pattern (\<lambda>_. Some []) of Inr _ \<Rightarrow> True | Inl _ \<Rightarrow> False)"

definition raises_only_KeyError :: "py_error + string \<Rightarrow> bool" where
  "raises_only_KeyError r =
     (case r of Inr _ \<Rightarrow> True | Inl (KeyError _) \<Rightarrow> True | Inl _ \<Rightarrow> False)"

definition is_KeyError :: "py_error + string \<Rightarrow> bool" where
  "is_KeyError r = (case r of Inl (KeyError _) \<Rightarrow> True | _ \<Rightarrow> False)"

text \<open>The iteration order in which a set yields its members as they were inserted.\<close>

definition insertion_order :: "pyset \<Rightarrow> string list" where
  "insertion_order s = s"

text \<open>
  Two profiles for the concrete instances. The first is what the command line
  \<open>--first john --last doe --birth 15/06/1990\<close> puts into \<open>data\<close>; the second is what
  the interactive prompts give for the names \<open>ab\<close> and \<open>cd\<close>, an empty birth date, no
  nickname and family, and the answer \<open>n\<close> to each of the three option questions.
\<close>

definition profile_john_doe :: data where
  "profile_john_doe =
     \<lparr>first_name = Some ''john'', last_name = Some ''doe'', nickname = None,
      birth_date = Some ''15/06/1990'', spouse_name = None, child_name = None,
      pet_name = None, use_specials = Some False, use_leet = Some False,
      add_numbers = Some True, specials = Some common_specials\<rparr>"

definition profile_ab_cd :: data where
  "profile_ab_cd =
     \<lparr>first_name = Some ''ab'', last_name = Some ''cd'', nickname = Some [],
      birth_date = Some [], spouse_name = None, child_name = None,
      pet_name = None, use_specials = Some False, use_leet = Some False,
      add_numbers = Some False, specials = None\<rparr>"



text \<open>
  The characters of the text fields of a profile; a set of candidates in which a character
  does not occur; and a profile with a hyphen in the first name.
\<close>

definition profile_chars :: "data \<Rightarrow> char set" where
  "profile_chars d =
     set (dget (first_name d)) \<union> set (dget (last_name d)) \<union> set (dget (nickname d)) \<union>
     set (dget (birth_date d)) \<union> set (dget (spouse_name d)) \<union> set (dget (child_name d)) \<union>
     set (dget (pet_name d))"

definition avoids :: "char \<Rightarrow> string list \<Rightarrow> bool" where
  "avoids x s = (\<forall>p \<in> set s. x \<notin> set p)"

definition profile_hyphen :: data where
  "profile_hyphen =
     \<lparr>first_name = Some ''a-b'', last_name = Some ''cd'', nickname = Some [],
      birth_date = Some [], spouse_name = None, child_name = None,
      pet_name = None, use_specials = Some False, use_leet = Some False,
      add_numbers = Some False, specials = None\<rparr>"


section \<open>Properties of date parsing\<close>

lemma isdigit_simps: "isdigit c = (c \<in> set ''0123456789'')"
  by (simp add: isdigit_def digit_chars_def)

text \<open>
  C5. Date parsing strips every non-digit character and branches on the number of digits
  left: eight digits give day (digits 1-2), month (digits 3-4), year (digits 5-8) and
  year_short (digits 7-8); six digits give day, month and the year \<open>20\<close> followed by the
  last two digits; four digits give day and month and no year. The input \<open>15061990\<close>
  gives day 15, month 06, year 1990, year_short 90.
\<close>

theorem parse_human_date_by_digit_count:
  "(clean_date s = [d1, d2, d3, d4, d5, d6, d7, d8] \<longrightarrow>
      parse_human_date s ''day'' = Some [d1, d2] \<and>
      parse_human_date s ''month'' = Some [d3, d4] \<and>
      parse_human_date s ''year'' = Some [d5, d6, d7, d8] \<and>
      parse_human_date s ''year_short'' = Some [d7, d8]) \<and>
   (clean_date s = [d1, d2, d3, d4, d5, d6] \<longrightarrow>
      parse_human_date s ''day'' = Some [d1, d2] \<and>
      parse_human_date s ''month'' = Some [d3, d4] \<and>
      parse_human_date s ''year'' = Some (''20'' @ [d5, d6])) \<and>
   (clean_date s = [d1, d2, d3, d4] \<longrightarrow>
      parse_human_date s ''day'' = Some [d1, d2] \<and>
      parse_human_date s ''month'' = Some [d3, d4] \<and>
      parse_human_date s ''year'' = None \<and>
      parse_human_date s ''year_short'' = None) \<and>
   parse_human_date ''15061990'' =
     [''day'' \<mapsto> ''15'', ''month'' \<mapsto> ''06'', ''year'' \<mapsto> ''1990'',
      ''year_short'' \<mapsto> ''90'', ''full'' \<mapsto> ''15061990'']"
proof -
  have ne: "clean_date s \<noteq> [] \<Longrightarrow> s \<noteq> []"
    by (auto simp: clean_date_def)
  have a: "clean_date s = [d1, d2, d3, d4, d5, d6, d7, d8] \<longrightarrow>
      parse_human_date s ''day'' = Some [d1, d2] \<and>
      parse_human_date s ''month'' = Some [d3, d4] \<and>
      parse_human_date s ''year'' = Some [d5, d6, d7, d8] \<and>
      parse_human_date s ''year_short'' = Some [d7, d8]"
    using ne by (auto simp: parse_human_date_def Let_def slice_def)
  have b: "clean_date s = [d1, d2, d3, d4, d5, d6] \<longrightarrow>
      parse_human_date s ''day'' = Some [d1, d2] \<and>
      parse_human_date s ''month'' = Some [d3, d4] \<and>
      parse_human_date s ''year'' = Some (''20'' @ [d5, d6])"
    using ne by (auto simp: parse_human_date_def Let_def slice_def)
  have c: "clean_date s = [d1, d2, d3, d4] \<longrightarrow>
      parse_human_date s ''day'' = Some [d1, d2] \<and>
      parse_human_date s ''month'' = Some [d3, d4] \<and>
      parse_human_date s ''year'' = None \<and>
      parse_human_date s ''year_short'' = None"
    using ne by (auto simp: parse_human_date_def Let_def slice_def)
  have d: "parse_human_date ''15061990'' =
     [''day'' \<mapsto> ''15'', ''month'' \<mapsto> ''06'', ''year'' \<mapsto> ''1990'',
      ''year_short'' \<mapsto> ''90'', ''full'' \<mapsto> ''15061990'']"
    by (simp add: parse_human_date_def Let_def slice_def clean_date_def isdigit_simps)
  from a b c d show ?thesis by blast
qed

theorem parse_human_date_by_digit_count_witness:
  "clean_date ''15/06/1990'' = ''15061990'' \<and>
   parse_human_date ''15/06/1990'' ''day'' = Some ''15'' \<and>
   parse_human_date ''15/06/1990'' ''month'' = Some ''06'' \<and>
   parse_human_date ''15/06/1990'' ''year'' = Some ''1990'' \<and>
   parse_human_date ''15/06/1990'' ''year_short'' = Some ''90'' \<and>
   clean_date ''15-06-90'' = ''150690'' \<and>
   parse_human_date ''15-06-90'' ''year'' = Some ''2090'' \<and>
   clean_date ''15.06'' = ''1506'' \<and>
   parse_human_date ''15.06'' ''day'' = Some ''15'' \<and>
   parse_human_date ''15.06'' ''month'' = Some ''06'' \<and>
   parse_human_date ''15.06'' ''year'' = None"
proof -
  have h8: "clean_date ''15/06/1990'' = ''15061990''"
    by (simp add: clean_date_def isdigit_simps)
  have h6: "clean_date ''15-06-90'' = ''150690''"
    by (simp add: clean_date_def isdigit_simps)
  have h4: "clean_date ''15.06'' = ''1506''"
    by (simp add: clean_date_def isdigit_simps)
  show ?thesis
    using h8 h6 h4
      parse_human_date_by_digit_count
        [of "''15/06/1990''" "CHR ''1''" "CHR ''5''" "CHR ''0''" "CHR ''6''" "CHR ''1''" "CHR ''9''" "CHR ''9''" "CHR ''0''"]
      parse_human_date_by_digit_count
        [of "''15-06-90''" "CHR ''1''" "CHR ''5''" "CHR ''0''" "CHR ''6''" "CHR ''9''" "CHR ''0''"]
      parse_human_date_by_digit_count
        [of "''15.06''" "CHR ''1''" "CHR ''5''" "CHR ''0''" "CHR ''6''"]
    by simp
qed

text \<open>
  C10. Date parsing slices by position and validates nothing: with eight digits the month
  is digits 3-4 whatever their value and all fields are set, so \<open>12/31/1999\<close> is parsed with
  month 31; and every non-empty input gets a result, which records the digits found.
\<close>

theorem parse_human_date_no_validation:
  "(clean_date s = [d1, d2, d3, d4, d5, d6, d7, d8] \<longrightarrow>
      parse_human_date s ''month'' = Some [d3, d4] \<and>
      dom (parse_human_date s) = {''day'', ''month'', ''year'', ''year_short'', ''full''}) \<and>
   parse_human_date ''12/31/1999'' ''month'' = Some ''31'' \<and>
   (s \<noteq> [] \<longrightarrow> parse_human_date s ''full'' = Some (clean_date s))"
proof -
  have ne: "clean_date s \<noteq> [] \<Longrightarrow> s \<noteq> []"
    by (auto simp: clean_date_def)
  have a: "clean_date s = [d1, d2, d3, d4, d5, d6, d7, d8] \<longrightarrow>
      parse_human_date s ''month'' = Some [d3, d4] \<and>
      dom (parse_human_date s) = {''day'', ''month'', ''year'', ''year_short'', ''full''}"
    using ne by (auto simp: parse_human_date_def Let_def slice_def)
  have b: "parse_human_date ''12/31/1999'' ''month'' = Some ''31''"
    by (simp add: parse_human_date_def Let_def slice_def clean_date_def isdigit_simps)
  have c: "s \<noteq> [] \<longrightarrow> parse_human_date s ''full'' = Some (clean_date s)"
    by (simp add: parse_human_date_def Let_def)
  from a b c show ?thesis by blast
qed

theorem parse_human_date_no_validation_witness:
  "clean_date ''12/31/1999'' = ''12311999'' \<and>
   parse_human_date ''12/31/1999'' ''month'' = Some ''31'' \<and>
   dom (parse_human_date ''12/31/1999'') = {''day'', ''month'', ''year'', ''year_short'', ''full''} \<and>
   parse_human_date ''12/31/1999'' ''full'' = Some ''12311999''"
proof -
  have h8: "clean_date ''12/31/1999'' = ''12311999''"
    by (simp add: clean_date_def isdigit_simps)
  have ne: "''12/31/1999'' \<noteq> []"
    by simp
  show ?thesis
    using h8 ne
      parse_human_date_no_validation
        [of "''12/31/1999''" "CHR ''1''" "CHR ''2''" "CHR ''3''" "CHR ''1''" "CHR ''1''" "CHR ''9''" "CHR ''9''" "CHR ''9''"]
    by simp
qed

section \<open>Basic facts about sets, substitution and totality\<close>

lemma set_add: "set (add x s) = insert x (set s)"
  by (auto simp: add_def)

lemma set_update: "set (update s xs) = set s \<union> set xs"
  unfolding update_def by (induction xs arbitrary: s) (auto simp: set_add)

lemma distinct_add: "distinct s \<Longrightarrow> distinct (add x s)"
  by (simp add: add_def)

lemma distinct_update: "distinct s \<Longrightarrow> distinct (update s xs)"
  unfolding update_def by (induction xs arbitrary: s) (auto simp: distinct_add)

lemma prepend_Inr_iff: "(\<exists>v. prepend x r = Inr v) = (\<exists>v. r = Inr v)"
  by (cases r) (auto simp: prepend_def)

lemma raises_only_prepend: "raises_only_KeyError (prepend x r) = raises_only_KeyError r"
  by (cases r) (auto simp: prepend_def raises_only_KeyError_def)


lemma raises_only_simps:
  "raises_only_KeyError (Inr v)" "raises_only_KeyError (Inl (KeyError k))"
  "\<not> raises_only_KeyError (Inl IndexError)" "\<not> raises_only_KeyError (Inl ValueError)"
  by (simp_all add: raises_only_KeyError_def)

lemma isl_prepend: "isl (prepend x r) = isl r"
  by (cases r) (auto simp: prepend_def)

lemma fmt_only_KeyError:
  "\<not> isl (fmt (\<lambda>_. Some []) st p) \<Longrightarrow> raises_only_KeyError (fmt vars st p)"
proof (induction vars st p rule: fmt.induct)
  case (1 vars)
  then show ?case by (simp add: raises_only_simps)
next
  case (2 vars name)
  then show ?case by simp
next
  case (3 vars c cs)
  show ?case
  proof (cases cs)
    case Nil
    with 3 show ?thesis
      by (simp add: isl_prepend raises_only_prepend raises_only_simps split: if_splits)
  next
    case (Cons d ds)
    with 3 show ?thesis
      by (simp add: isl_prepend raises_only_prepend split: if_splits)
  qed
next
  case (4 vars name c cs)
  show ?case
  proof (cases "c = CHR ''}''")
    case True
    show ?thesis
    proof (cases "list_all isdigit name")
      case True
      with 4 \<open>c = CHR ''}''\<close> show ?thesis by (simp add: lookup_field_def)
    next
      case False
      show ?thesis
      proof (cases "vars name")
        case None
        with False \<open>c = CHR ''}''\<close> show ?thesis
          by (simp add: lookup_field_def raises_only_simps)
      next
        case (Some v)
        with 4 False \<open>c = CHR ''}''\<close> show ?thesis
          by (simp add: lookup_field_def isl_prepend raises_only_prepend)
      qed
    qed
  next
    case False
    with 4 show ?thesis by (simp split: if_splits)
  qed
qed

lemma format_only_KeyError:
  "simple_template p \<Longrightarrow> raises_only_KeyError (format p vars)"
  unfolding simple_template_def format_def
  by (rule fmt_only_KeyError) (auto split: sum.splits)

lemma human_patterns_simple: "\<forall>p \<in> set human_patterns. simple_template p"
  by code_simp

lemma apply_patterns_total:
  "\<forall>p \<in> set ps. simple_template p \<Longrightarrow> \<exists>s'. apply_patterns d vars ps s = Inr s'"
proof (induction ps arbitrary: s)
  case Nil
  show ?case by simp
next
  case (Cons p ps)
  then have ok: "raises_only_KeyError (format p vars)"
    by (simp add: format_only_KeyError)
  from Cons have rest: "\<And>s. \<exists>s'. apply_patterns d vars ps s = Inr s'"
    by simp
  show ?case
  proof (cases "format p vars")
    case (Inl e)
    with ok obtain k where "e = KeyError k"
      by (cases e) (simp_all add: raises_only_simps)
    with Inl rest show ?thesis by simp
  next
    case (Inr password)
    with rest show ?thesis by simp
  qed
qed

lemma first_generation_total: "\<exists>s. first_generation d special = Inr s"
  unfolding first_generation_def
  by (rule apply_patterns_total) (rule human_patterns_simple)

lemma random_choice_total: "seq \<noteq> [] \<Longrightarrow> \<exists>x. random_choice g pos seq = Inr (x, Suc pos)"
  by (simp add: random_choice_def)

lemma leet_subst_total:
  "\<forall>(c, subs) \<in> set m. subs \<noteq> [] \<Longrightarrow> \<exists>r. leet_subst g m s pos = Inr r"
proof (induction m arbitrary: s pos)
  case Nil
  show ?case by simp
next
  case (Cons a m)
  obtain ch subs where a: "a = (ch, subs)" by (cases a)
  with Cons.prems have ne: "subs \<noteq> []" by simp
  from Cons have rest: "\<And>s pos. \<exists>r. leet_subst g m s pos = Inr r" by simp
  from ne obtain c1 where c1: "random_choice g (Suc pos) subs = Inr (c1, Suc (Suc pos))"
    using random_choice_total by blast
  from ne obtain c2 where c2: "random_choice g (Suc (Suc pos)) subs = Inr (c2, Suc (Suc (Suc pos)))"
    using random_choice_total by blast
  show ?case
    using rest by (simp add: a random_random_def c1 c2)
qed

lemma leet_map_nonempty: "\<forall>(c, subs) \<in> set leet_map. subs \<noteq> []"
  by (simp add: leet_map_def)

lemma leet_loop_total: "\<exists>r. leet_loop g pws new pos = Inr r"
proof (induction pws arbitrary: new pos)
  case Nil
  show ?case by simp
next
  case (Cons pwd rest)
  obtain r where r: "leet_subst g leet_map pwd (Suc pos) = Inr r"
    using leet_subst_total [OF leet_map_nonempty] by blast
  obtain lp p2 where "r = (lp, p2)" by (cases r)
  with r Cons show ?case
    by (simp add: random_random_def Let_def)
qed

lemma leet_stage_total: "\<exists>r. leet_stage iter g pos d passwords = Inr r"
proof -
  obtain r where "leet_loop g (take 100 (iter passwords)) [] pos = Inr r"
    using leet_loop_total by blast
  then show ?thesis
    by (cases r) (simp add: leet_stage_def add_leet_variations_def)
qed

lemma bind_special_total: "\<exists>r. bind_special g pos d = Inr r"
  by (simp add: bind_special_def random_choice_def common_specials_def)

lemma generate_smart_combinations_total:
  "\<exists>passwords. generate_smart_combinations iter g d = Inr passwords"
proof -
  obtain special pos1 where b: "bind_special g 0 d = Inr (special, pos1)"
    using bind_special_total [of g 0 d] by auto
  obtain p1 where f: "first_generation d special = Inr p1"
    using first_generation_total by blast
  define p4 where "p4 = specials_stage iter d (numbers_stage iter d (parse_human_date (dget (birth_date d)))
     (generate_specific_examples p1 (lower (dget (first_name d))) (lower (dget (last_name d)))
        (parse_human_date (dget (birth_date d)))))"
  obtain p5 pos2 where l: "leet_stage iter g pos1 d p4 = Inr (p5, pos2)"
    using leet_stage_total [of iter g pos1 d p4] by auto
  show ?thesis
    using b f l by (simp add: generate_smart_combinations_def Let_def p4_def)
qed

section \<open>Template expansion with a missing slot\<close>

lemma is_KeyError_simps:
  "is_KeyError (Inl (KeyError k))" "\<not> is_KeyError (Inr v)"
  "\<not> is_KeyError (Inl IndexError)" "\<not> is_KeyError (Inl ValueError)"
  by (simp_all add: is_KeyError_def)

lemma is_KeyError_prepend: "is_KeyError (prepend x r) = is_KeyError r"
  by (cases r) (auto simp: prepend_def is_KeyError_def)

lemma fmt_missing_field:
  "\<not> isl (fmt (\<lambda>_. Some []) st p) \<Longrightarrow> k \<in> set (fields_from st p) \<Longrightarrow> vars k = None
     \<Longrightarrow> is_KeyError (fmt vars st p)"
proof (induction vars st p rule: fmt.induct)
  case (1 vars)
  then show ?case by simp
next
  case (2 vars name)
  then show ?case by simp
next
  case (3 vars c cs)
  show ?case
  proof (cases cs)
    case Nil
    with 3 show ?thesis
      by (simp add: isl_prepend is_KeyError_prepend split: if_splits)
  next
    case (Cons d ds)
    with 3 show ?thesis
      by (simp add: isl_prepend is_KeyError_prepend split: if_splits)
  qed
next
  case (4 vars name c cs)
  show ?case
  proof (cases "c = CHR ''}''")
    case True
    note close = True
    show ?thesis
    proof (cases "list_all isdigit name")
      case True
      with 4 close show ?thesis by (simp add: lookup_field_def)
    next
      case False
      note named = False
      show ?thesis
      proof (cases "vars name")
        case None
        with named close show ?thesis
          by (simp add: lookup_field_def is_KeyError_simps)
      next
        case (Some v)
        with 4 named close have "k \<in> set (fields_from None cs)"
          by auto
        with 4 named close Some show ?thesis
          by (simp add: lookup_field_def isl_prepend is_KeyError_prepend)
      qed
    qed
  next
    case False
    with 4 show ?thesis by (simp split: if_splits)
  qed
qed

lemma format_missing_field:
  "simple_template pattern \<Longrightarrow> k \<in> set (field_names pattern) \<Longrightarrow> vars k = None
     \<Longrightarrow> is_KeyError (format pattern vars)"
  unfolding simple_template_def format_def field_names_def
  by (rule fmt_missing_field) (auto split: sum.splits)

lemma apply_patterns_KeyError:
  "is_KeyError (format pattern vars)
     \<Longrightarrow> apply_patterns d vars (pattern # rest) s = apply_patterns d vars rest s"
  by (auto simp: is_KeyError_def split: sum.splits py_error.splits)

lemma vars_dict_spouse:
  "spouse_name d = None \<Longrightarrow> vars_dict d special ''spouse_initial'' = None"
  by (simp add: vars_dict_def Let_def split: option.splits)

text \<open>
  C7. A template that references a slot absent from the bindings yields no candidate and no
  partial output, and raises no error: \<open>format\<close> raises KeyError before anything is added,
  the loop catches it and goes on with the remaining templates from the unchanged set. So
  it is for \<open>{first}{spouse_initial}{year}\<close> on a profile without a spouse, and the loop
  over the whole table ends without an error.
\<close>

theorem missing_slot_skips_template:
  "(simple_template pattern \<and> k \<in> set (field_names pattern) \<and> vars k = None \<longrightarrow>
      (\<exists>k'. format pattern vars = Inl (KeyError k')) \<and>
      apply_patterns d vars (pattern # rest) s = apply_patterns d vars rest s) \<and>
   (spouse_name d = None \<longrightarrow>
      vars_dict d special ''spouse_initial'' = None \<and>
      format ''{first}{spouse_initial}{year}'' (vars_dict d special)
        = Inl (KeyError ''spouse_initial'') \<and>
      apply_patterns d (vars_dict d special) (''{first}{spouse_initial}{year}'' # rest) s
        = apply_patterns d (vars_dict d special) rest s) \<and>
   ''{first}{spouse_initial}{year}'' \<in> set human_patterns \<and>
   (\<exists>s'. first_generation d special = Inr s')"
proof -
  have a: "simple_template pattern \<and> k \<in> set (field_names pattern) \<and> vars k = None \<longrightarrow>
      (\<exists>k'. format pattern vars = Inl (KeyError k')) \<and>
      apply_patterns d vars (pattern # rest) s = apply_patterns d vars rest s"
  proof
    assume h: "simple_template pattern \<and> k \<in> set (field_names pattern) \<and> vars k = None"
    then have ke: "is_KeyError (format pattern vars)"
      using format_missing_field by blast
    then have "\<exists>k'. format pattern vars = Inl (KeyError k')"
      by (auto simp: is_KeyError_def split: sum.splits py_error.splits)
    moreover from ke have "apply_patterns d vars (pattern # rest) s = apply_patterns d vars rest s"
      by (rule apply_patterns_KeyError)
    ultimately show "(\<exists>k'. format pattern vars = Inl (KeyError k')) \<and>
      apply_patterns d vars (pattern # rest) s = apply_patterns d vars rest s"
      by simp
  qed
  have b: "spouse_name d = None \<longrightarrow>
      vars_dict d special ''spouse_initial'' = None \<and>
      format ''{first}{spouse_initial}{year}'' (vars_dict d special)
        = Inl (KeyError ''spouse_initial'') \<and>
      apply_patterns d (vars_dict d special) (''{first}{spouse_initial}{year}'' # rest) s
        = apply_patterns d (vars_dict d special) rest s"
  proof
    assume sp: "spouse_name d = None"
    then have none: "vars_dict d special ''spouse_initial'' = None"
      by (rule vars_dict_spouse)
    have first: "vars_dict d special ''first'' = Some (lower (dget (first_name d)))"
      by (simp add: vars_dict_def Let_def split: option.splits)
    have f: "format ''{first}{spouse_initial}{year}'' (vars_dict d special)
        = Inl (KeyError ''spouse_initial'')"
      by (simp add: format_def lookup_field_def isdigit_simps none first prepend_def)
    then have "apply_patterns d (vars_dict d special) (''{first}{spouse_initial}{year}'' # rest) s
        = apply_patterns d (vars_dict d special) rest s"
      by simp
    with none f show "vars_dict d special ''spouse_initial'' = None \<and>
      format ''{first}{spouse_initial}{year}'' (vars_dict d special)
        = Inl (KeyError ''spouse_initial'') \<and>
      apply_patterns d (vars_dict d special) (''{first}{spouse_initial}{year}'' # rest) s
        = apply_patterns d (vars_dict d special) rest s"
      by simp
  qed
  have c: "''{first}{spouse_initial}{year}'' \<in> set human_patterns"
    by (simp add: human_patterns_def)
  have e: "\<exists>s'. first_generation d special = Inr s'"
    by (rule first_generation_total)
  from a b c e show ?thesis by blast
qed


theorem missing_slot_skips_template_witness:
  "simple_template ''{first}{spouse_initial}{year}'' \<and>
   ''spouse_initial'' \<in> set (field_names ''{first}{spouse_initial}{year}'') \<and>
   spouse_name profile_john_doe = None \<and>
   vars_dict profile_john_doe [] ''spouse_initial'' = None \<and>
   format ''{first}{spouse_initial}{year}'' (vars_dict profile_john_doe [])
     = Inl (KeyError ''spouse_initial'') \<and>
   apply_patterns profile_john_doe (vars_dict profile_john_doe [])
       [''{first}{spouse_initial}{year}'', ''{first}{last}''] []
     = apply_patterns profile_john_doe (vars_dict profile_john_doe []) [''{first}{last}''] []"
proof -
  have h1: "simple_template ''{first}{spouse_initial}{year}''"
    by code_simp
  have h2: "''spouse_initial'' \<in> set (field_names ''{first}{spouse_initial}{year}'')"
    by code_simp
  have h3: "spouse_name profile_john_doe = None"
    by (simp add: profile_john_doe_def)
  have h4: "vars_dict profile_john_doe [] ''spouse_initial'' = None"
    using h3 by (rule vars_dict_spouse)
  show ?thesis
    using h1 h2 h3 h4
      missing_slot_skips_template
        [of "''{first}{spouse_initial}{year}''" "''spouse_initial''"
            "vars_dict profile_john_doe []" profile_john_doe "[''{first}{last}'']" "[]" "[]"]
    by simp
qed

section \<open>The gated mutation stages\<close>

text \<open>
  C8. Each gated mutation stage (numbers, special characters, leet) only adds to the
  accumulated set: the set after the stage contains the set before it, and the leet stage
  always returns. A stage whose flag is off (\<open>add_numbers\<close> false, \<open>use_specials\<close> or
  \<open>use_leet\<close> false or absent) returns the set exactly as it was.
\<close>

theorem stages_only_add:
  "set passwords \<subseteq> set (numbers_stage iter d date_info passwords) \<and>
   set passwords \<subseteq> set (specials_stage iter d passwords) \<and>
   (\<exists>p' pos'. leet_stage iter g pos d passwords = Inr (p', pos') \<and> set passwords \<subseteq> set p') \<and>
   (add_numbers d = Some False \<longrightarrow> numbers_stage iter d date_info passwords = passwords) \<and>
   (use_specials d \<noteq> Some True \<longrightarrow> specials_stage iter d passwords = passwords) \<and>
   (use_leet d \<noteq> Some True \<longrightarrow> leet_stage iter g pos d passwords = Inr (passwords, pos))"
proof -
  have n: "set passwords \<subseteq> set (numbers_stage iter d date_info passwords)"
    by (simp add: numbers_stage_def set_update)
  have s: "set passwords \<subseteq> set (specials_stage iter d passwords)"
    by (simp add: specials_stage_def set_update)
  have l: "\<exists>p' pos'. leet_stage iter g pos d passwords = Inr (p', pos') \<and> set passwords \<subseteq> set p'"
  proof (cases "flag (use_leet d)")
    case True
    obtain new pos1 where "add_leet_variations iter g pos passwords = Inr (new, pos1)"
      using leet_loop_total [of g "take 100 (iter passwords)" "[]" pos]
      by (auto simp: add_leet_variations_def)
    with True show ?thesis
      by (simp add: leet_stage_def set_update)
  next
    case False
    then show ?thesis by (simp add: leet_stage_def)
  qed
  have n0: "add_numbers d = Some False \<longrightarrow> numbers_stage iter d date_info passwords = passwords"
    by (simp add: numbers_stage_def flag_or_true_def)
  have s0: "use_specials d \<noteq> Some True \<longrightarrow> specials_stage iter d passwords = passwords"
    by (simp add: specials_stage_def flag_def)
  have l0: "use_leet d \<noteq> Some True \<longrightarrow> leet_stage iter g pos d passwords = Inr (passwords, pos)"
    by (simp add: leet_stage_def flag_def)
  from n s l n0 s0 l0 show ?thesis by blast
qed

theorem stages_only_add_witness:
  "add_numbers profile_ab_cd = Some False \<and>
   use_specials profile_john_doe \<noteq> Some True \<and>
   use_leet profile_john_doe \<noteq> Some True \<and>
   numbers_stage insertion_order profile_ab_cd Map.empty [''abcdef''] = [''abcdef''] \<and>
   specials_stage insertion_order profile_john_doe [''abcdef''] = [''abcdef''] \<and>
   leet_stage insertion_order (\<lambda>_. 0) 0 profile_john_doe [''abcdef''] = Inr ([''abcdef''], 0) \<and>
   set [''abcdef''] \<subseteq> set (numbers_stage insertion_order profile_john_doe Map.empty [''abcdef''])"
proof -
  have h1: "add_numbers profile_ab_cd = Some False"
    by (simp add: profile_ab_cd_def)
  have h2: "use_specials profile_john_doe \<noteq> Some True"
    by (simp add: profile_john_doe_def)
  have h3: "use_leet profile_john_doe \<noteq> Some True"
    by (simp add: profile_john_doe_def)
  show ?thesis
    using h1 h2 h3
      stages_only_add [of "[''abcdef'']" insertion_order profile_ab_cd Map.empty "\<lambda>_. 0" 0]
      stages_only_add [of "[''abcdef'']" insertion_order profile_john_doe Map.empty "\<lambda>_. 0" 0]
    by simp
qed

section \<open>Unparsable dates\<close>

lemma main_output_total: "\<exists>out. main_output iter g d mx = Inr out"
proof -
  obtain passwords where "generate_smart_combinations iter g d = Inr passwords"
    using generate_smart_combinations_total by blast
  then show ?thesis
    by (simp add: main_output_def Let_def)
qed

lemma unparsable_fields:
  "s = [] \<or> length (clean_date s) \<notin> {4, 6, 8} \<Longrightarrow>
     k \<in> {''day'', ''month'', ''year'', ''year_short''} \<Longrightarrow> parse_human_date s k = None"
  by (auto simp: parse_human_date_def Let_def)

lemma vars_dict_date_slots:
  "vars_dict d special ''day'' = Some (get_str (parse_human_date (dget (birth_date d))) ''day'')"
  "vars_dict d special ''month'' = Some (get_str (parse_human_date (dget (birth_date d))) ''month'')"
  "vars_dict d special ''year'' = Some (get_str (parse_human_date (dget (birth_date d))) ''year'')"
  "vars_dict d special ''year_short''
     = Some (get_str (parse_human_date (dget (birth_date d))) ''year_short'')"
  by (simp_all add: vars_dict_def Let_def split: option.splits)

text \<open>
  C6. An input that is empty or not parsable as a date (the digits left are not 4, 6 or 8
  in number, as for \<open>abcd\<close>) gives day, month, year and year_short all empty; no exception
  is raised, and the rest of the pipeline goes on as usual: the date slots are bound to the
  empty string and generation and output end without an error.
\<close>

theorem unparsable_date_gives_empty_components:
  "(s = [] \<or> length (clean_date s) \<notin> {4, 6, 8} \<longrightarrow>
      get_str (parse_human_date s) ''day'' = [] \<and>
      get_str (parse_human_date s) ''month'' = [] \<and>
      get_str (parse_human_date s) ''year'' = [] \<and>
      get_str (parse_human_date s) ''year_short'' = [] \<and>
      (dget (birth_date d) = s \<longrightarrow>
         vars_dict d special ''day'' = Some [] \<and>
         vars_dict d special ''month'' = Some [] \<and>
         vars_dict d special ''year'' = Some [] \<and>
         vars_dict d special ''year_short'' = Some [] \<and>
         (\<exists>passwords. generate_smart_combinations iter g d = Inr passwords) \<and>
         (\<exists>out. main_output iter g d mx = Inr out))) \<and>
   parse_human_date ''abcd'' = [''full'' \<mapsto> []] \<and>
   parse_human_date [] = Map.empty"
proof -
  have a: "s = [] \<or> length (clean_date s) \<notin> {4, 6, 8} \<longrightarrow>
      get_str (parse_human_date s) ''day'' = [] \<and>
      get_str (parse_human_date s) ''month'' = [] \<and>
      get_str (parse_human_date s) ''year'' = [] \<and>
      get_str (parse_human_date s) ''year_short'' = []"
    using unparsable_fields [of s] by (simp add: get_str_def)
  have b: "s = [] \<or> length (clean_date s) \<notin> {4, 6, 8} \<longrightarrow> dget (birth_date d) = s \<longrightarrow>
         vars_dict d special ''day'' = Some [] \<and>
         vars_dict d special ''month'' = Some [] \<and>
         vars_dict d special ''year'' = Some [] \<and>
         vars_dict d special ''year_short'' = Some []"
    using a by (simp add: vars_dict_date_slots)
  have c: "\<exists>passwords. generate_smart_combinations iter g d = Inr passwords"
    by (rule generate_smart_combinations_total)
  have e: "\<exists>out. main_output iter g d mx = Inr out"
    by (rule main_output_total)
  have f: "parse_human_date ''abcd'' = [''full'' \<mapsto> []]"
    by (simp add: parse_human_date_def Let_def clean_date_def isdigit_simps)
  have h: "parse_human_date [] = Map.empty"
    by (simp add: parse_human_date_def)
  from a b c e f h show ?thesis by blast
qed

theorem unparsable_date_gives_empty_components_witness:
  "length (clean_date ''abcd'') \<notin> {4, 6, 8} \<and>
   get_str (parse_human_date ''abcd'') ''day'' = [] \<and>
   get_str (parse_human_date ''abcd'') ''month'' = [] \<and>
   get_str (parse_human_date ''abcd'') ''year'' = [] \<and>
   get_str (parse_human_date ''abcd'') ''year_short'' = [] \<and>
   dget (birth_date profile_ab_cd) = [] \<and>
   vars_dict profile_ab_cd [] ''year'' = Some [] \<and>
   get_str (parse_human_date []) ''year'' = []"
proof -
  have h1: "length (clean_date ''abcd'') \<notin> {4, 6, 8}"
    by (simp add: clean_date_def isdigit_simps)
  have h2: "dget (birth_date profile_ab_cd) = []"
    by (simp add: profile_ab_cd_def dget_def)
  show ?thesis
    using h1 h2
      unparsable_date_gives_empty_components [of "''abcd''" profile_ab_cd "[]" insertion_order "\<lambda>_. 0" 5000]
      unparsable_date_gives_empty_components [of "[]" profile_ab_cd "[]" insertion_order "\<lambda>_. 0" 5000]
    by (simp add: get_str_def)
qed

section \<open>Configuration and output size\<close>

lemma length_add_le: "length (add x s) \<le> Suc (length s)"
  by (simp add: add_def)

lemma length_update_le: "length (update s xs) \<le> length s + length xs"
  unfolding update_def
proof (induction xs arbitrary: s)
  case Nil
  show ?case by simp
next
  case (Cons x xs)
  have "length (fold add xs (add x s)) \<le> length (add x s) + length xs"
    by (rule Cons.IH)
  also have "\<dots> \<le> Suc (length s) + length xs"
    using length_add_le [of x s] by simp
  finally show ?case by simp
qed

lemma limit_output_bounded:
  "0 < mx \<Longrightarrow> mx < int (length filtered) \<Longrightarrow> int (length (limit_output iter mx filtered)) \<le> mx"
proof -
  assume pos: "0 < mx" and big: "mx < int (length filtered)"
  have "length (update [] (take (nat mx) (iter filtered))) \<le> length (take (nat mx) (iter filtered))"
    using length_update_le [of "[]" "take (nat mx) (iter filtered)"] by simp
  also have "\<dots> \<le> nat mx"
    by simp
  finally show ?thesis
    using pos big by (simp add: limit_output_def)
qed

text \<open>
  C3 (as stated, refuted). The engine rejects no configuration. With a maximum output size
  of 0 or -5 \<open>main\<close> skips the limiting step and writes all sixteen filtered candidates
  of the profile; with \<open>min_len = 10\<close> and \<open>max_len = 5\<close> the filter returns the empty set.
\<close>

theorem invalid_configuration_is_not_rejected:
  "main_output insertion_order (\<lambda>_. 0) profile_ab_cd 0 =
     Inr [''Abcd!!'', ''ab#123'', ''ab1234'', ''ab@123'', ''ababcd'', ''abc123'', ''abcd!!'',
          ''abcdcd'', ''Abcd123'', ''abcd!23'', ''abcd123'', ''Abcd1234'', ''abcd1234'',
          ''abcd@123'', ''Abcd12345'', ''abcd12345''] \<and>
   main_output insertion_order (\<lambda>_. 0) profile_ab_cd (- 5) =
     Inr [''Abcd!!'', ''ab#123'', ''ab1234'', ''ab@123'', ''ababcd'', ''abc123'', ''abcd!!'',
          ''abcdcd'', ''Abcd123'', ''abcd!23'', ''abcd123'', ''Abcd1234'', ''abcd1234'',
          ''abcd@123'', ''Abcd12345'', ''abcd12345''] \<and>
   analyze_and_filter insertion_order [''abcdefgh'', ''johndoe1990''] 10 5 = []"
proof -
  have a: "main_output insertion_order (\<lambda>_. 0) profile_ab_cd 0 =
     Inr [''Abcd!!'', ''ab#123'', ''ab1234'', ''ab@123'', ''ababcd'', ''abc123'', ''abcd!!'',
          ''abcdcd'', ''Abcd123'', ''abcd!23'', ''abcd123'', ''Abcd1234'', ''abcd1234'',
          ''abcd@123'', ''Abcd12345'', ''abcd12345'']"
    by code_simp
  have b: "main_output insertion_order (\<lambda>_. 0) profile_ab_cd (- 5) =
     Inr [''Abcd!!'', ''ab#123'', ''ab1234'', ''ab@123'', ''ababcd'', ''abc123'', ''abcd!!'',
          ''abcdcd'', ''Abcd123'', ''abcd!23'', ''abcd123'', ''Abcd1234'', ''abcd1234'',
          ''abcd@123'', ''Abcd12345'', ''abcd12345'']"
    by code_simp
  have c: "analyze_and_filter insertion_order [''abcdefgh'', ''johndoe1990''] 10 5 = []"
    by code_simp
  from a b c show ?thesis by simp
qed

text \<open>
  C3 (amended). No configuration is rejected: \<open>main\<close> returns its output for every
  profile and every maximum; a maximum that is zero or negative switches the limiting step
  off, so the filtered set is kept whole; and a minimum length above the maximum length
  makes the filter return the empty set.
\<close>

theorem no_configuration_is_rejected:
  "(\<exists>out. main_output iter g d mx = Inr out) \<and>
   (mx \<le> 0 \<longrightarrow> limit_output iter mx filtered = filtered) \<and>
   (max_len < min_len \<longrightarrow> analyze_and_filter iter passwords min_len max_len = [])"
proof -
  have a: "\<exists>out. main_output iter g d mx = Inr out"
    by (rule main_output_total)
  have b: "mx \<le> 0 \<longrightarrow> limit_output iter mx filtered = filtered"
    by (simp add: limit_output_def)
  have c: "max_len < min_len \<longrightarrow> analyze_and_filter iter passwords min_len max_len = []"
  proof
    assume "max_len < min_len"
    then have "filter (keeps min_len max_len) (iter passwords) = []"
      by (auto simp: keeps_def filter_empty_conv)
    then show "analyze_and_filter iter passwords min_len max_len = []"
      by (simp add: analyze_and_filter_def update_def)
  qed
  from a b c show ?thesis by blast
qed

theorem no_configuration_is_rejected_witness:
  "(0::int) \<le> 0 \<and> (5::int) < 10 \<and>
   limit_output insertion_order 0 [''abcdef'', ''abcdefg''] = [''abcdef'', ''abcdefg''] \<and>
   analyze_and_filter insertion_order [''abcdefgh'', ''johndoe1990''] 10 5 = []"
proof -
  have h1: "(0::int) \<le> 0" by simp
  have h2: "(5::int) < 10" by simp
  show ?thesis
    using h1 h2
      no_configuration_is_rejected
        [of insertion_order "\<lambda>_. 0" profile_ab_cd 0 "[''abcdef'', ''abcdefg'']" 5 10
            "[''abcdefgh'', ''johndoe1990'']"]
    by simp
qed

text \<open>
  C4. The stratified sampler of old_versions/Var3.py does not keep to the maximum: its
  three quotas are filled without regard to \<open>max_passwords\<close>, and when they already hold
  more than the maximum, \<open>random.sample\<close> is called with a negative count and raises
  ValueError. So it is for the set of \<open>ab\<close> and \<open>cd\<close> with a maximum of 1, whatever
  \<open>random.sample\<close> would choose.
\<close>

theorem save_to_file_raises_ValueError:
  "save_to_file insertion_order pick [''ab'', ''cd''] 1 = Inl ValueError"
  by (simp add: save_to_file_def insertion_order_def Let_def update_def add_def random_sample_def)

section \<open>Lengths of first-generation candidates\<close>




lemma re_split_nonempty: "re_split seps s \<noteq> []"
  by (induction s) (auto split: list.splits)
























section \<open>Special characters in the output\<close>

lemma char_lower_cases: "char_lower c = c \<or> char_lower c \<in> set lower_chars"
proof (cases "map_of (zip upper_chars lower_chars) c")
  case None
  then show ?thesis by (simp add: char_lower_def)
next
  case (Some l)
  then have "(c, l) \<in> set (zip upper_chars lower_chars)"
    by (rule map_of_SomeD)
  then have "l \<in> set lower_chars"
    by (rule set_zip_rightD)
  with Some show ?thesis by (simp add: char_lower_def)
qed

lemma char_upper_cases: "char_upper c = c \<or> char_upper c \<in> set upper_chars"
proof (cases "map_of (zip lower_chars upper_chars) c")
  case None
  then show ?thesis by (simp add: char_upper_def)
next
  case (Some u)
  then have "(c, u) \<in> set (zip lower_chars upper_chars)"
    by (rule map_of_SomeD)
  then have "u \<in> set upper_chars"
    by (rule set_zip_rightD)
  with Some show ?thesis by (simp add: char_upper_def)
qed

lemma special_not_letter:
  "x \<in> set ''$%&*-'' \<Longrightarrow> x \<notin> set lower_chars \<and> x \<notin> set upper_chars \<and> \<not> isdigit x"
  by (auto simp: lower_chars_def upper_chars_def isdigit_simps)

lemma lower_avoids: "x \<in> set ''$%&*-'' \<Longrightarrow> x \<notin> set s \<Longrightarrow> x \<notin> set (lower s)"
proof
  assume sp: "x \<in> set ''$%&*-''" and a: "x \<notin> set s" and "x \<in> set (lower s)"
  then obtain c where c: "c \<in> set s" "char_lower c = x"
    by (auto simp: lower_def)
  with a have "char_lower c \<noteq> c" by auto
  with char_lower_cases [of c] c have "x \<in> set lower_chars" by auto
  with special_not_letter [OF sp] show False by simp
qed

lemma title_from_avoids:
  "x \<in> set ''$%&*-'' \<Longrightarrow> x \<notin> set s \<Longrightarrow> x \<notin> set (title_from prev s)"
proof (induction s arbitrary: prev)
  case Nil
  then show ?case by simp
next
  case (Cons c cs)
  from Cons.prems have xc: "x \<noteq> c" and rest: "x \<notin> set cs" by auto
  have l: "x \<noteq> char_lower c"
    using char_lower_cases [of c] special_not_letter [OF Cons.prems(1)] xc by auto
  have u: "x \<noteq> char_upper c"
    using char_upper_cases [of c] special_not_letter [OF Cons.prems(1)] xc by auto
  from Cons.IH [OF Cons.prems(1) rest] xc l u show ?case
    by simp
qed

lemma title_avoids: "x \<in> set ''$%&*-'' \<Longrightarrow> x \<notin> set s \<Longrightarrow> x \<notin> set (title s)"
  by (simp add: title_def title_from_avoids)

lemma capitalize_avoids:
  "x \<in> set ''$%&*-'' \<Longrightarrow> x \<notin> set s \<Longrightarrow> x \<notin> set (capitalize s)"
proof (cases s)
  case Nil
  then show ?thesis by (simp add: capitalize_def)
next
  case (Cons c cs)
  assume sp: "x \<in> set ''$%&*-''" and a: "x \<notin> set s"
  with Cons have xc: "x \<noteq> c" and rest: "x \<notin> set cs" by auto
  have u: "x \<noteq> char_upper c"
    using char_upper_cases [of c] special_not_letter [OF sp] xc by auto
  from lower_avoids [OF sp rest] u Cons show ?thesis
    by (simp add: capitalize_def)
qed

lemma prepend_avoids:
  "prepend v r = Inr out \<Longrightarrow> \<exists>t. r = Inr t \<and> out = v @ t"
  by (cases r) (auto simp: prepend_def)

lemma fmt_avoids:
  "fmt vars st p = Inr out \<Longrightarrow> x \<notin> set p \<Longrightarrow> \<forall>k v. vars k = Some v \<longrightarrow> x \<notin> set v
     \<Longrightarrow> x \<notin> set out"
proof (induction vars st p arbitrary: out rule: fmt.induct)
  case (1 vars)
  then show ?case by simp
next
  case (2 vars name)
  then show ?case by simp
next
  case (3 vars c cs)
  show ?case
  proof (cases "c = CHR ''{'' \<or> c = CHR ''}''")
    case False
    with "3.prems"(1) obtain t where t: "fmt vars None cs = Inr t" "out = [c] @ t"
      by (auto dest!: prepend_avoids)
    from False have "x \<notin> set t"
      using "3.IH"(4) [OF _ _ t(1)] "3.prems" by simp
    with t "3.prems"(2) show ?thesis by simp
  next
    case True
    show ?thesis
    proof (cases cs)
      case Nil
      with True "3.prems" show ?thesis by (auto split: if_splits)
    next
      case (Cons d ds)
      show ?thesis
      proof (cases "c = CHR ''{''")
        case lbrace: True
        show ?thesis
        proof (cases "d = CHR ''{''")
          case True
          with lbrace Cons "3.prems"(1) obtain t where
            t: "fmt vars None ds = Inr t" "out = ''{'' @ t"
            by (auto dest!: prepend_avoids)
          have "x \<notin> set t"
            using "3.IH"(1) [OF lbrace Cons True t(1)] "3.prems" Cons by simp
          with t "3.prems"(2) lbrace show ?thesis by simp
        next
          case False
          with lbrace Cons "3.prems"(1) have "fmt vars (Some []) cs = Inr out"
            by simp
          then show ?thesis
            using "3.IH"(2) [OF lbrace Cons False] "3.prems" by simp
        qed
      next
        case nolbrace: False
        with True have rbrace: "c = CHR ''}''" by simp
        show ?thesis
        proof (cases "d = CHR ''}''")
          case True
          with nolbrace rbrace Cons "3.prems"(1) obtain t where
            t: "fmt vars None ds = Inr t" "out = ''}'' @ t"
            by (auto dest!: prepend_avoids)
          have "x \<notin> set t"
            using "3.IH"(3) [OF nolbrace rbrace Cons True t(1)] "3.prems" Cons by simp
          with t "3.prems"(2) rbrace show ?thesis by simp
        next
          case False
          with nolbrace rbrace Cons "3.prems"(1) show ?thesis by simp
        qed
      qed
    qed
  qed
next
  case (4 vars name c cs)
  show ?case
  proof (cases "c = CHR ''}''")
    case True
    with "4.prems"(1) obtain v where v: "lookup_field vars name = Inr v"
      by (cases "lookup_field vars name") auto
    with True "4.prems"(1) obtain t where t: "fmt vars None cs = Inr t" "out = v @ t"
      by (auto dest!: prepend_avoids)
    from v have "vars name = Some v"
      by (auto simp: lookup_field_def split: if_splits option.splits)
    with "4.prems"(3) have xv: "x \<notin> set v" by blast
    from "4.IH"(1) [OF True v t(1)] "4.prems" have "x \<notin> set t" by simp
    with xv t show ?thesis by simp
  next
    case False
    with 4 show ?thesis by (auto split: if_splits)
  qed
qed

lemma format_avoids:
  "format p vars = Inr out \<Longrightarrow> x \<notin> set p \<Longrightarrow> \<forall>k v. vars k = Some v \<longrightarrow> x \<notin> set v
     \<Longrightarrow> x \<notin> set out"
  unfolding format_def by (rule fmt_avoids)

lemma avoids_Nil: "avoids x []"
  by (simp add: avoids_def)

lemma avoids_add: "avoids x (add p s) = (x \<notin> set p \<and> avoids x s)"
  by (auto simp: avoids_def set_add)

lemma avoids_update: "avoids x (update s ps) = (avoids x s \<and> avoids x ps)"
  by (auto simp: avoids_def set_update)

lemma avoids_subset: "set t \<subseteq> set s \<Longrightarrow> avoids x s \<Longrightarrow> avoids x t"
  by (auto simp: avoids_def)

lemma avoids_take: "avoids x s \<Longrightarrow> avoids x (take n s)"
  by (auto simp: avoids_def dest: in_set_takeD)

lemma avoids_member: "avoids x s \<Longrightarrow> p \<in> set s \<Longrightarrow> x \<notin> set p"
  by (simp add: avoids_def)

lemma digits_avoid: "x \<in> set ''$%&*-'' \<Longrightarrow> list_all isdigit s \<Longrightarrow> x \<notin> set s"
  using special_not_letter [of x] by (auto simp: list_all_iff)

lemma parse_human_date_digits: "parse_human_date s k = Some v \<Longrightarrow> list_all isdigit v"
  by (auto simp: parse_human_date_def Let_def slice_def clean_date_def list_all_iff isdigit_simps
      split: if_splits dest!: in_set_takeD in_set_dropD)

lemma get_str_date_digits: "list_all isdigit (get_str (parse_human_date s) k)"
  using parse_human_date_digits [of s k]
  by (cases "parse_human_date s k") (simp_all add: get_str_def)

lemma date_avoids: "x \<in> set ''$%&*-'' \<Longrightarrow> x \<notin> set (get_str (parse_human_date s) k)"
  using digits_avoid [OF _ get_str_date_digits] by simp

lemma common_numbers_digits: "\<forall>n \<in> set common_numbers. list_all isdigit n"
  by code_simp

lemma common_number_avoids:
  "x \<in> set ''$%&*-'' \<Longrightarrow> num \<in> set (take k common_numbers) \<Longrightarrow> x \<notin> set num"
proof -
  assume sp: "x \<in> set ''$%&*-''" and "num \<in> set (take k common_numbers)"
  then have "num \<in> set common_numbers"
    by (auto dest: in_set_takeD)
  with common_numbers_digits have "list_all isdigit num"
    by blast
  with sp show ?thesis
    by (rule digits_avoid)
qed

lemma re_split_parts: "p \<in> set (re_split seps s) \<Longrightarrow> set p \<subseteq> set s"
proof (induction s arbitrary: p)
  case Nil
  then show ?case by simp
next
  case (Cons c cs)
  show ?case
  proof (cases "c \<in> set seps")
    case True
    with Cons show ?thesis by auto
  next
    case False
    obtain a rest where ar: "re_split seps cs = a # rest"
      using re_split_nonempty [of seps cs] by (cases "re_split seps cs") auto
    then have "set a \<subseteq> set cs"
      using Cons.IH [of a] by simp
    moreover have "\<And>q. q \<in> set rest \<Longrightarrow> set q \<subseteq> set cs"
      using Cons.IH ar by simp
    ultimately show ?thesis
      using Cons.prems False ar by auto
  qed
qed

lemma re_split_nth_avoids:
  "x \<notin> set s \<Longrightarrow> i < length (re_split seps s) \<Longrightarrow> x \<notin> set (re_split seps s ! i)"
  using re_split_parts [of "re_split seps s ! i" seps s] by auto

lemma add_number_avoids:
  assumes "x \<notin> set password" "x \<notin> set num" "avoids x s"
  shows "avoids x (add_number password num s)"
proof -
  have "1 < length (re_split ''._'' password) \<Longrightarrow>
      x \<notin> set (re_split ''._'' password ! 0) \<and> x \<notin> set (re_split ''._'' password ! 1)"
    using assms(1) re_split_nth_avoids [of x password 0 "''._''"]
      re_split_nth_avoids [of x password 1 "''._''"] by (simp add: re_split_nonempty)
  with assms show ?thesis
    by (auto simp: add_number_def Let_def avoids_add)
qed

lemma fold_add_number_avoids:
  "x \<notin> set password \<Longrightarrow> \<forall>num \<in> set nums. x \<notin> set num \<Longrightarrow> avoids x s
     \<Longrightarrow> avoids x (fold (add_number password) nums s)"
proof (induction nums arbitrary: s)
  case Nil
  then show ?case by simp
next
  case (Cons n nums)
  then have "avoids x (add_number password n s)"
    by (intro add_number_avoids) simp_all
  with Cons show ?case by simp
qed

lemma accept_avoids:
  assumes sp: "x \<in> set ''$%&*-''" and pw: "x \<notin> set password" and s: "avoids x s"
  shows "avoids x (accept d password s)"
proof -
  let ?s1 = "add (capitalize password) (add (title password) (add password s))"
  have s1: "avoids x ?s1"
    using sp pw s by (simp add: avoids_add title_avoids capitalize_avoids)
  have "avoids x (fold (add_number password) (take 10 common_numbers) ?s1)"
    using pw s1 common_number_avoids [OF sp] by (intro fold_add_number_avoids) auto
  with s1 s show ?thesis
    by (simp add: accept_def Let_def)
qed

lemma apply_patterns_avoids:
  assumes sp: "x \<in> set ''$%&*-''" and vars: "\<forall>k v. vars k = Some v \<longrightarrow> x \<notin> set v"
  shows "apply_patterns d vars ps s = Inr s' \<Longrightarrow> \<forall>p \<in> set ps. x \<notin> set p \<Longrightarrow> avoids x s
     \<Longrightarrow> avoids x s'"
proof (induction ps arbitrary: s)
  case Nil
  then show ?case by simp
next
  case (Cons p ps)
  show ?case
  proof (cases "format p vars")
    case (Inl e)
    with Cons show ?thesis
      by (cases e) auto
  next
    case (Inr password)
    then have "x \<notin> set password"
      using Cons.prems(2) vars by (intro format_avoids [of p vars password x]) simp_all
    then have "avoids x (accept d password s)"
      using sp Cons.prems(3) by (intro accept_avoids)
    moreover from Inr Cons.prems(1) have "apply_patterns d vars ps (accept d password s) = Inr s'"
      by simp
    ultimately show ?thesis
      using Cons.IH Cons.prems(2) by simp
  qed
qed

lemma human_patterns_avoid: "\<forall>x \<in> set ''$%&*-''. \<forall>p \<in> set human_patterns. x \<notin> set p"
  by code_simp

lemma take_avoids: "x \<notin> set s \<Longrightarrow> x \<notin> set (take n s)"
  by (auto dest: in_set_takeD)

lemma vars_dict_avoids:
  assumes sp: "x \<in> set ''$%&*-''" and inp: "x \<notin> profile_chars d" and spc: "x \<notin> set special"
  shows "\<forall>k v. vars_dict d special k = Some v \<longrightarrow> x \<notin> set v"
proof -
  note la = lower_avoids [OF sp]
  have f: "x \<notin> set (lower (dget (first_name d)))"
    using inp by (intro la) (simp add: profile_chars_def)
  have l: "x \<notin> set (lower (dget (last_name d)))"
    using inp by (intro la) (simp add: profile_chars_def)
  have n: "x \<notin> set (lower (dget (nickname d)))"
    using inp by (intro la) (simp add: profile_chars_def)
  have s: "\<And>sp'. spouse_name d = Some sp' \<Longrightarrow> x \<notin> set (lower sp')"
    using inp by (intro la) (simp add: profile_chars_def dget_def)
  have c: "\<And>ch. child_name d = Some ch \<Longrightarrow> x \<notin> set (lower ch)"
    using inp by (intro la) (simp add: profile_chars_def dget_def)
  have p: "\<And>pt. pet_name d = Some pt \<Longrightarrow> x \<notin> set (lower pt)"
    using inp by (intro la) (simp add: profile_chars_def dget_def)
  note dt = date_avoids [OF sp, of "dget (birth_date d)"]
  show ?thesis
    using f l n s c p spc dt take_avoids [of x _ 1]
    by (auto simp: vars_dict_def Let_def split: option.splits if_splits)
qed

lemma first_generation_avoids:
  assumes "x \<in> set ''$%&*-''" "x \<notin> profile_chars d" "x \<notin> set special"
    and "first_generation d special = Inr p1"
  shows "avoids x p1"
  using assms(4) unfolding first_generation_def
  by (rule apply_patterns_avoids [OF assms(1) vars_dict_avoids [OF assms(1,2,3)]])
     (use assms(1) human_patterns_avoid in \<open>auto simp: avoids_Nil\<close>)

lemma literal_avoids:
  "x \<in> set ''$%&*-'' \<Longrightarrow>
     x \<notin> set ''.'' \<and> x \<notin> set ''_'' \<and> x \<notin> set ''@'' \<and> x \<notin> set ''123'' \<and>
     x \<notin> set ''!23'' \<and> x \<notin> set ''@123'' \<and> x \<notin> set ''1234'' \<and> x \<notin> set ''#123''"
  by auto

lemma generate_specific_examples_avoids:
  assumes sp: "x \<in> set ''$%&*-''" and f: "x \<notin> set firstn" and l: "x \<notin> set lastn"
    and s: "avoids x passwords"
  shows "avoids x (generate_specific_examples passwords firstn lastn (parse_human_date b))"
proof -
  note dt = date_avoids [OF sp, of b]
  note lit = literal_avoids [OF sp]
  have f1: "x \<notin> set (take 1 firstn)" and l1: "x \<notin> set (take 1 lastn)"
    using f l by (auto dest: in_set_takeD)
  show ?thesis
    using f l s dt lit f1 l1
    by (simp add: generate_specific_examples_def Let_def avoids_def set_update)
qed

lemma generate_common_passwords_avoids:
  assumes sp: "x \<in> set ''$%&*-''" and f: "x \<notin> set firstn" and l: "x \<notin> set lastn"
  shows "avoids x (generate_common_passwords firstn lastn (parse_human_date b))"
proof -
  note dt = date_avoids [OF sp, of b]
  note lit = literal_avoids [OF sp]
  have f1: "x \<notin> set (take 1 firstn)" and l1: "x \<notin> set (take 1 lastn)"
    using f l by (auto dest: in_set_takeD)
  have lo: "x \<notin> set (lower firstn)" "x \<notin> set (lower lastn)"
    using lower_avoids [OF sp] f l by auto
  have ti: "x \<notin> set (title firstn)" "x \<notin> set (title lastn)"
    using title_avoids [OF sp] f l by auto
  show ?thesis
    using f l dt lit f1 l1 lo ti
    by (simp add: generate_common_passwords_def Let_def avoids_def set_update)
qed

lemma date_combinations_avoid:
  "x \<in> set ''$%&*-'' \<Longrightarrow> avoids x (date_combinations (parse_human_date b))"
proof -
  assume "x \<in> set ''$%&*-''"
  then have "\<And>k. x \<notin> set (get_str (parse_human_date b) k)"
    by (rule date_avoids)
  then show ?thesis
    by (auto simp: date_combinations_def Let_def avoids_def)
qed

lemma add_date_combo_avoids:
  "x \<notin> set pwd \<Longrightarrow> x \<notin> set combo \<Longrightarrow> avoids x new
     \<Longrightarrow> avoids x (add_date_combo pwd combo new)"
  by (auto simp: add_date_combo_def Let_def avoids_add split: option.splits dest: in_set_takeD)

lemma add_common_number_avoids:
  assumes "x \<notin> set pwd" "x \<notin> set num" "avoids x new"
  shows "avoids x (add_common_number pwd num new)"
proof -
  have "length (re_split ''._-'' pwd) = 2 \<Longrightarrow>
      x \<notin> set (re_split ''._-'' pwd ! 0) \<and> x \<notin> set (re_split ''._-'' pwd ! 1)"
    using assms(1) re_split_nth_avoids [of x pwd 0 "''._-''"]
      re_split_nth_avoids [of x pwd 1 "''._-''"] by simp
  with assms show ?thesis
    by (auto simp: add_common_number_def Let_def avoids_add)
qed

lemma fold_avoids:
  "\<forall>b \<in> set bs. \<forall>s. avoids x s \<longrightarrow> avoids x (g b s) \<Longrightarrow> avoids x s
     \<Longrightarrow> avoids x (fold g bs s)"
  by (induction bs arbitrary: s) simp_all

lemma fold_fold_avoids:
  assumes step: "\<And>a b s. x \<notin> set a \<Longrightarrow> x \<notin> set b \<Longrightarrow> avoids x s \<Longrightarrow> avoids x (f a b s)"
    and as: "avoids x as" and bs: "avoids x bs" and s: "avoids x s"
  shows "avoids x (fold (\<lambda>a. fold (f a) bs) as s)"
proof (rule fold_avoids [OF _ s], intro ballI allI impI)
  fix a t
  assume a: "a \<in> set as" and t: "avoids x t"
  from a as have xa: "x \<notin> set a"
    by (simp add: avoids_def)
  have "\<forall>b \<in> set bs. \<forall>u. avoids x u \<longrightarrow> avoids x (f a b u)"
    using step [OF xa] avoids_member [OF bs] by blast
  then show "avoids x (fold (f a) bs t)"
    using t by (rule fold_avoids)
qed

lemma add_number_variations_avoids:
  assumes sp: "x \<in> set ''$%&*-''" and it: "\<forall>s. set (iter s) \<subseteq> set s"
    and s: "avoids x passwords"
  shows "avoids x (add_number_variations iter passwords (parse_human_date b))"
proof -
  have pw: "avoids x (iter passwords)"
    using it s by (auto simp: avoids_def)
  have combos: "avoids x (take 3 (date_combinations (parse_human_date b)))"
    using date_combinations_avoid [OF sp] by (rule avoids_take)
  have nums: "avoids x (take 5 common_numbers)"
    using common_number_avoids [OF sp, of _ 5] by (simp add: avoids_def)
  have new1: "avoids x (fold (\<lambda>pwd. fold (add_date_combo pwd)
      (take 3 (date_combinations (parse_human_date b)))) (take 100 (iter passwords)) [])"
    using add_date_combo_avoids avoids_take [OF pw] combos avoids_Nil
    by (rule fold_fold_avoids)
  have "avoids x (fold (\<lambda>pwd. fold (add_common_number pwd) (take 5 common_numbers))
      (take 50 (iter passwords)) (fold (\<lambda>pwd. fold (add_date_combo pwd)
      (take 3 (date_combinations (parse_human_date b)))) (take 100 (iter passwords)) []))"
    using add_common_number_avoids avoids_take [OF pw] nums new1
    by (rule fold_fold_avoids)
  then show ?thesis
    by (simp add: add_number_variations_def Let_def)
qed

lemma numbers_stage_avoids:
  assumes "x \<in> set ''$%&*-''" "\<forall>s. set (iter s) \<subseteq> set s" "avoids x passwords"
  shows "avoids x (numbers_stage iter d (parse_human_date b) passwords)"
proof -
  have "avoids x (iter (add_number_variations iter passwords (parse_human_date b)))"
    using assms(2) add_number_variations_avoids [OF assms]
    by (auto simp: avoids_def)
  with assms(3) show ?thesis
    by (simp add: numbers_stage_def avoids_update)
qed

lemma replace_avoids: "x \<notin> set s \<Longrightarrow> x \<notin> set new \<Longrightarrow> x \<notin> set (replace old new s)"
  by (auto simp: replace_def)

lemma random_choice_member: "random_choice g pos seq = Inr (c, pos') \<Longrightarrow> c \<in> set seq"
proof -
  assume r: "random_choice g pos seq = Inr (c, pos')"
  then have ne: "seq \<noteq> []"
    by (auto simp: random_choice_def split: if_splits)
  then have "0 < length seq"
    by simp
  then have "min (nat \<lfloor>g pos * of_nat (length seq)\<rfloor>) (length seq - 1) < length seq"
    by linarith
  then have "seq ! (min (nat \<lfloor>g pos * of_nat (length seq)\<rfloor>) (length seq - 1)) \<in> set seq"
    by (rule nth_mem)
  with r ne show ?thesis
    by (simp add: random_choice_def)
qed

lemma leet_subst_avoids:
  "\<forall>(c, subs) \<in> set m. \<forall>sub \<in> set subs. x \<notin> set sub \<Longrightarrow> x \<notin> set s
     \<Longrightarrow> leet_subst g m s pos = Inr (s', pos') \<Longrightarrow> x \<notin> set s'"
proof (induction m arbitrary: s pos)
  case Nil
  then show ?case by simp
next
  case (Cons a m)
  obtain ch subs where a: "a = (ch, subs)" by (cases a)
  from Cons.prems(1) a have subs: "\<forall>sub \<in> set subs. x \<notin> set sub"
    and rest: "\<forall>(c, subs) \<in> set m. \<forall>sub \<in> set subs. x \<notin> set sub"
    by auto
  note IH = Cons.IH [OF rest]
  show ?case
  proof (cases "ch \<in> set (lower s) \<and> g pos < float_0_5")
    case False
    with Cons.prems(3) a have
      "leet_subst g m s pos = Inr (s', pos') \<or> leet_subst g m s (Suc pos) = Inr (s', pos')"
      by (auto simp: random_random_def split: if_splits)
    with IH Cons.prems(2) show ?thesis by blast
  next
    case True
    with Cons.prems(3) a obtain c1 p2 where c1: "random_choice g (Suc pos) subs = Inr (c1, p2)"
      by (cases "random_choice g (Suc pos) subs") (auto simp: random_random_def)
    with True Cons.prems(3) a obtain c2 p3 where c2: "random_choice g p2 subs = Inr (c2, p3)"
      by (cases "random_choice g p2 subs") (auto simp: random_random_def)
    from True Cons.prems(3) a c1 c2 have
      run: "leet_subst g m (replace (char_upper ch) c2 (replace ch c1 s)) p3 = Inr (s', pos')"
      by (simp add: random_random_def)
    have "x \<notin> set c1"
      using random_choice_member [OF c1] subs by blast
    moreover have "x \<notin> set c2"
      using random_choice_member [OF c2] subs by blast
    ultimately have "x \<notin> set c1" "x \<notin> set c2"
      by simp_all
    with Cons.prems(2) have "x \<notin> set (replace (char_upper ch) c2 (replace ch c1 s))"
      by (simp add: replace_avoids)
    then show ?thesis
      using run by (rule IH)
  qed
qed

lemma leet_map_avoids:
  "x \<in> set ''%&*-'' \<Longrightarrow> \<forall>(c, subs) \<in> set leet_map. \<forall>sub \<in> set subs. x \<notin> set sub"
  by (auto simp: leet_map_def)

lemma leet_loop_avoids:
  assumes sp: "x \<in> set ''%&*-''"
  shows "avoids x pws \<Longrightarrow> avoids x new \<Longrightarrow> leet_loop g pws new pos = Inr (new', pos')
     \<Longrightarrow> avoids x new'"
proof (induction pws arbitrary: new pos)
  case Nil
  then show ?case by simp
next
  case (Cons pwd rest)
  from Cons.prems(1) have xp: "x \<notin> set pwd" and ar: "avoids x rest"
    by (simp_all add: avoids_def)
  have new1: "avoids x (add pwd new)"
    using xp Cons.prems(2) by (simp add: avoids_add)
  show ?case
  proof (cases "g pos < float_0_3")
    case False
    with Cons.prems(3) have "leet_loop g rest (add pwd new) (Suc pos) = Inr (new', pos')"
      by (simp add: random_random_def Let_def)
    with Cons.IH [OF ar new1] show ?thesis by blast
  next
    case True
    obtain lp p2 where lp: "leet_subst g leet_map pwd (Suc pos) = Inr (lp, p2)"
      using leet_subst_total [OF leet_map_nonempty, of g pwd "Suc pos"] by auto
    have xl: "x \<notin> set lp"
      using leet_map_avoids [OF sp] xp lp by (rule leet_subst_avoids)
    from True lp Cons.prems(3) have
      "leet_loop g rest (if lp \<noteq> pwd then add lp (add pwd new) else add pwd new) p2 = Inr (new', pos')"
      by (simp add: random_random_def Let_def)
    moreover have "avoids x (if lp \<noteq> pwd then add lp (add pwd new) else add pwd new)"
      using new1 xl by (simp add: avoids_add)
    ultimately show ?thesis
      using Cons.IH [OF ar] by blast
  qed
qed

lemma leet_stage_avoids:
  assumes sp: "flag (use_leet d) \<longrightarrow> x \<in> set ''%&*-''" and it: "\<forall>s. set (iter s) \<subseteq> set s"
    and s: "avoids x passwords" and run: "leet_stage iter g pos d passwords = Inr (p', pos')"
  shows "avoids x p'"
proof (cases "flag (use_leet d)")
  case False
  with run s show ?thesis by (simp add: leet_stage_def)
next
  case True
  with sp have sp': "x \<in> set ''%&*-''" by simp
  from True run obtain new where
    new: "leet_loop g (take 100 (iter passwords)) [] pos = Inr (new, pos')"
    and p': "p' = update passwords (iter new)"
    by (auto simp: leet_stage_def add_leet_variations_def split: sum.splits)
  have "avoids x (take 100 (iter passwords))"
    using it s by (auto simp: avoids_def dest!: in_set_takeD)
  then have "avoids x new"
    using avoids_Nil new by (rule leet_loop_avoids [OF sp'])
  with it have "avoids x (iter new)"
    by (auto simp: avoids_def)
  with s p' show ?thesis
    by (simp add: avoids_update)
qed

lemma generate_avoids:
  assumes sp: "x \<in> set ''$%&*-''"
    and leet: "flag (use_leet d) \<longrightarrow> x \<noteq> CHR ''$''"
    and off: "\<not> flag (use_specials d)"
    and inp: "x \<notin> profile_chars d"
    and it: "\<forall>s. set (iter s) \<subseteq> set s"
    and run: "generate_smart_combinations iter g d = Inr passwords"
  shows "avoids x passwords"
proof -
  define b where "b = dget (birth_date d)"
  define firstn where "firstn = lower (dget (first_name d))"
  define lastn where "lastn = lower (dget (last_name d))"
  have b0: "bind_special g 0 d = Inr ([], 0)"
    using off by (simp add: bind_special_def)
  obtain p1 where f: "first_generation d [] = Inr p1"
    using first_generation_total by blast
  define p2 where "p2 = generate_specific_examples p1 firstn lastn (parse_human_date b)"
  define p3 where "p3 = numbers_stage iter d (parse_human_date b) p2"
  obtain p5 pos2 where l: "leet_stage iter g 0 d p3 = Inr (p5, pos2)"
    using leet_stage_total [of iter g 0 d p3] by auto
  have res: "passwords =
      update p5 (iter (generate_common_passwords firstn lastn (parse_human_date b)))"
    using run b0 f l off
    by (simp add: generate_smart_combinations_def Let_def specials_stage_def
        b_def firstn_def lastn_def p2_def p3_def)
  have xf: "x \<notin> set firstn" and xl: "x \<notin> set lastn"
    using inp lower_avoids [OF sp] by (auto simp: firstn_def lastn_def profile_chars_def)
  have a1: "avoids x p1"
    using sp inp _ f by (rule first_generation_avoids) simp
  have a2: "avoids x p2"
    unfolding p2_def using sp xf xl a1 by (rule generate_specific_examples_avoids)
  have a3: "avoids x p3"
    unfolding p3_def using sp it a2 by (rule numbers_stage_avoids)
  have "flag (use_leet d) \<longrightarrow> x \<in> set ''%&*-''"
    using sp leet by auto
  then have a5: "avoids x p5"
    using it a3 l by (rule leet_stage_avoids)
  have "avoids x (generate_common_passwords firstn lastn (parse_human_date b))"
    using sp xf xl by (rule generate_common_passwords_avoids)
  then have "avoids x (iter (generate_common_passwords firstn lastn (parse_human_date b)))"
    using it by (auto simp: avoids_def)
  with a5 res show ?thesis
    by (simp add: avoids_update)
qed

lemma set_analyze_and_filter:
  "\<forall>s. set (iter s) \<subseteq> set s \<Longrightarrow> set (analyze_and_filter iter passwords mn mxl) \<subseteq> set passwords"
  by (auto simp: analyze_and_filter_def set_update)

lemma set_limit_output:
  "\<forall>s. set (iter s) \<subseteq> set s \<Longrightarrow> set (limit_output iter mx filtered) \<subseteq> set filtered"
  by (auto simp: limit_output_def set_update dest!: in_set_takeD)

lemma main_output_subset:
  assumes it: "\<forall>s. set (iter s) \<subseteq> set s"
    and gen: "generate_smart_combinations iter g d = Inr passwords"
    and out: "main_output iter g d mx = Inr out"
  shows "set out \<subseteq> set passwords"
proof -
  define filtered where "filtered = limit_output iter mx (analyze_and_filter iter passwords 6 20)"
  have "set filtered \<subseteq> set passwords"
    unfolding filtered_def
    using set_limit_output [OF it] set_analyze_and_filter [OF it] by blast
  moreover have "set out \<subseteq> set filtered"
  proof (cases "filtered = []")
    case True
    with out gen show ?thesis
      by (simp add: main_output_def Let_def filtered_def)
  next
    case False
    with out gen have "out = sorted_passwords iter filtered"
      by (simp add: main_output_def Let_def filtered_def)
    then have "set out = set (iter filtered)"
      by (simp add: sorted_passwords_def)
    with it show ?thesis
      by simp
  qed
  ultimately show ?thesis by blast
qed

text \<open>
  C2 (as stated, refuted). With \<open>use_specials\<close> false, the output for the profile of the
  names \<open>ab\<close> and \<open>cd\<close> holds candidates with \<open>!\<close>, \<open>@\<close> and \<open>#\<close>, which are configured
  special characters and occur in no field of the profile.
\<close>

theorem specials_emitted_with_option_off:
  "use_specials profile_ab_cd = Some False \<and>
   main_output insertion_order (\<lambda>_. 0) profile_ab_cd 5000 =
     Inr [''Abcd!!'', ''ab#123'', ''ab1234'', ''ab@123'', ''ababcd'', ''abc123'', ''abcd!!'',
          ''abcdcd'', ''Abcd123'', ''abcd!23'', ''abcd123'', ''Abcd1234'', ''abcd1234'',
          ''abcd@123'', ''Abcd12345'', ''abcd12345''] \<and>
   ''@'' \<in> set common_specials \<and> CHR ''@'' \<in> set ''ab@123'' \<and>
   CHR ''@'' \<notin> profile_chars profile_ab_cd"
proof -
  have a: "use_specials profile_ab_cd = Some False"
    by (simp add: profile_ab_cd_def)
  have b: "main_output insertion_order (\<lambda>_. 0) profile_ab_cd 5000 =
     Inr [''Abcd!!'', ''ab#123'', ''ab1234'', ''ab@123'', ''ababcd'', ''abc123'', ''abcd!!'',
          ''abcdcd'', ''Abcd123'', ''abcd!23'', ''abcd123'', ''Abcd1234'', ''abcd1234'',
          ''abcd@123'', ''Abcd12345'', ''abcd12345'']"
    by code_simp
  have c: "''@'' \<in> set common_specials"
    by (simp add: common_specials_def)
  have e: "CHR ''@'' \<notin> profile_chars profile_ab_cd"
    by (simp add: profile_chars_def profile_ab_cd_def dget_def)
  from a b c e show ?thesis by simp
qed

text \<open>
  C2 (amended). With \<open>use_specials\<close> false or absent, the \<open>special\<close> slot is bound to the
  empty string without a random draw and the special-character stage leaves the set as it
  is. The special characters written into the pattern table and the fixed examples
  (\<open>.\<close>, \<open>_\<close>, \<open>!\<close>, \<open>@\<close>, \<open>#\<close>) are still emitted, and leet substitution can add
  \<open>@\<close>, \<open>!\<close> and \<open>$\<close>. Every other configured special character is emitted only if
  it occurs in a field of the profile: \<open>%\<close>, \<open>&\<close>, \<open>*\<close> and \<open>-\<close> always, and \<open>$\<close>
  when \<open>use_leet\<close> is off.
\<close>

theorem specials_off_limits_special_characters:
  "use_specials d \<noteq> Some True \<longrightarrow>
     bind_special g 0 d = Inr ([], 0) \<and>
     specials_stage iter d passwords = passwords \<and>
     ((\<forall>s. set (iter s) \<subseteq> set s) \<and> main_output iter g d mx = Inr out \<and>
      pwd \<in> set out \<and> c \<in> set pwd \<and>
      (c \<in> set ''%&*-'' \<or> c = CHR ''$'' \<and> use_leet d \<noteq> Some True)
      \<longrightarrow> c \<in> profile_chars d)"
proof
  assume "use_specials d \<noteq> Some True"
  then have off: "\<not> flag (use_specials d)"
    by (simp add: flag_def)
  have a: "bind_special g 0 d = Inr ([], 0)"
    using off by (simp add: bind_special_def)
  have b: "specials_stage iter d passwords = passwords"
    using off by (simp add: specials_stage_def)
  have c: "(\<forall>s. set (iter s) \<subseteq> set s) \<and> main_output iter g d mx = Inr out \<and>
      pwd \<in> set out \<and> c \<in> set pwd \<and>
      (c \<in> set ''%&*-'' \<or> c = CHR ''$'' \<and> use_leet d \<noteq> Some True)
      \<longrightarrow> c \<in> profile_chars d"
  proof (intro impI, elim conjE)
    assume it: "\<forall>s. set (iter s) \<subseteq> set s" and out: "main_output iter g d mx = Inr out"
      and pwd: "pwd \<in> set out" and cp: "c \<in> set pwd"
      and kind: "c \<in> set ''%&*-'' \<or> c = CHR ''$'' \<and> use_leet d \<noteq> Some True"
    obtain generated where gen: "generate_smart_combinations iter g d = Inr generated"
      using generate_smart_combinations_total by blast
    have mem: "pwd \<in> set generated"
      using main_output_subset [OF it gen out] pwd by blast
    show "c \<in> profile_chars d"
    proof (rule ccontr)
      assume inp: "c \<notin> profile_chars d"
      from kind have sp: "c \<in> set ''$%&*-''"
        by auto
      from kind have leet: "flag (use_leet d) \<longrightarrow> c \<noteq> CHR ''$''"
        by (auto simp: flag_def)
      have "avoids c generated"
        using sp leet off inp it gen by (rule generate_avoids)
      with mem cp show False
        by (simp add: avoids_def)
    qed
  qed
  from a b c show "bind_special g 0 d = Inr ([], 0) \<and>
     specials_stage iter d passwords = passwords \<and>
     ((\<forall>s. set (iter s) \<subseteq> set s) \<and> main_output iter g d mx = Inr out \<and>
      pwd \<in> set out \<and> c \<in> set pwd \<and>
      (c \<in> set ''%&*-'' \<or> c = CHR ''$'' \<and> use_leet d \<noteq> Some True)
      \<longrightarrow> c \<in> profile_chars d)"
    by blast
qed

theorem specials_off_limits_special_characters_witness:
  "use_specials profile_hyphen \<noteq> Some True \<and>
   main_output insertion_order (\<lambda>_. 0) profile_hyphen 5000 =
     Inr [''A-B.Cd'', ''A-B_Cd'', ''A-Bcd!'', ''A-Bcd?'', ''A-b.cd'', ''A-b_cd'', ''A-bcd!'',
          ''A-bcd?'', ''a-b!23'', ''a-b.cd'', ''a-b123'', ''a-b_cd'', ''a-bcd!'', ''a-bcd?'',
          ''a-bcd@'', ''A-Bcd!!'', ''A-bcd!!'', ''a-b#123'', ''a-b1234'', ''a-b@123'',
          ''a-bc123'', ''a-bcd!!'', ''a-bcdcd'', ''A-Bcd123'', ''A-bcd123'', ''a-ba-bcd'',
          ''a-bcd!23'', ''a-bcd123'', ''A-Bcd1234'', ''A-bcd1234'', ''a-bcd1234'',
          ''a-bcd@123'', ''A-Bcd12345'', ''A-bcd12345'', ''a-bcd12345''] \<and>
   CHR ''-'' \<in> set ''a-bcd!'' \<and>
   CHR ''-'' \<in> profile_chars profile_hyphen \<and>
   bind_special (\<lambda>_. 0) 0 profile_hyphen = Inr ([], 0) \<and>
   specials_stage insertion_order profile_hyphen [''a-bcd!''] = [''a-bcd!'']"
proof -
  have h1: "use_specials profile_hyphen \<noteq> Some True"
    by (simp add: profile_hyphen_def)
  have h2: "\<forall>s. set (insertion_order s) \<subseteq> set s"
    by (simp add: insertion_order_def)
  have h3: "main_output insertion_order (\<lambda>_. 0) profile_hyphen 5000 =
     Inr [''A-B.Cd'', ''A-B_Cd'', ''A-Bcd!'', ''A-Bcd?'', ''A-b.cd'', ''A-b_cd'', ''A-bcd!'',
          ''A-bcd?'', ''a-b!23'', ''a-b.cd'', ''a-b123'', ''a-b_cd'', ''a-bcd!'', ''a-bcd?'',
          ''a-bcd@'', ''A-Bcd!!'', ''A-bcd!!'', ''a-b#123'', ''a-b1234'', ''a-b@123'',
          ''a-bc123'', ''a-bcd!!'', ''a-bcdcd'', ''A-Bcd123'', ''A-bcd123'', ''a-ba-bcd'',
          ''a-bcd!23'', ''a-bcd123'', ''A-Bcd1234'', ''A-bcd1234'', ''a-bcd1234'',
          ''a-bcd@123'', ''A-Bcd12345'', ''A-bcd12345'', ''a-bcd12345'']"
    by code_simp
  show ?thesis
    using h1 h2 h3
      specials_off_limits_special_characters
        [of profile_hyphen "\<lambda>_. 0" insertion_order "[''a-bcd!'']" 5000
            "[''A-B.Cd'', ''A-B_Cd'', ''A-Bcd!'', ''A-Bcd?'', ''A-b.cd'', ''A-b_cd'', ''A-bcd!'',
          ''A-bcd?'', ''a-b!23'', ''a-b.cd'', ''a-b123'', ''a-b_cd'', ''a-bcd!'', ''a-bcd?'',
          ''a-bcd@'', ''A-Bcd!!'', ''A-bcd!!'', ''a-b#123'', ''a-b1234'', ''a-b@123'',
          ''a-bc123'', ''a-bcd!!'', ''a-bcdcd'', ''A-Bcd123'', ''A-bcd123'', ''a-ba-bcd'',
          ''a-bcd!23'', ''a-bcd123'', ''A-Bcd1234'', ''A-bcd1234'', ''a-bcd1234'',
          ''a-bcd@123'', ''A-Bcd12345'', ''A-bcd12345'', ''a-bcd12345'']"
            "''a-bcd!''" "CHR ''-''"]
    by simp
qed

section \<open>Dependence on the random generator\<close>

lemma random_choice_agree:
  "g1 pos = g2 pos \<Longrightarrow> random_choice g1 pos seq = random_choice g2 pos seq"
  by (simp add: random_choice_def)












end
